theory Spec2Isabelle
  imports Main "HOL-Library.Sublist"
begin

section \<open>Paths: the functions of path/filepath the bundler calls (Unix host)\<close>

text \<open>
  The bundler manipulates paths as plain strings: it calls \<open>filepath.Join\<close>,
  \<open>filepath.Abs\<close>, \<open>filepath.Ext\<close> and also concatenates with \<open>+\<close>. The functions below
  follow the Unix variants of the Go standard library (separator \<open>/\<close>, no volume names).
\<close>

definition isAbs :: "string \<Rightarrow> bool" where
  "isAbs p = (p \<noteq> [] \<and> hd p = CHR ''/'')"

text \<open>\<open>strings.Split(p, "/")\<close>: never empty, the empty string gives one empty element.\<close>

fun splitSlash :: "string \<Rightarrow> string list" where
  "splitSlash [] = [[]]"
| "splitSlash (c # cs) =
     (if c = CHR ''/'' then [] # splitSlash cs
      else (case splitSlash cs of [] \<Rightarrow> [[c]] | x # xs \<Rightarrow> (c # x) # xs))"

text \<open>\<open>strings.Join(elems, "/")\<close>.\<close>

fun joinSlash :: "string list \<Rightarrow> string" where
  "joinSlash [] = []"
| "joinSlash [x] = x"
| "joinSlash (x # y # ys) = x @ ''/'' @ joinSlash (y # ys)"

text \<open>
  One step of \<open>filepath.Clean\<close> over the elements between separators. The accumulator is
  the stack of elements kept so far, most recent first. An empty element (a doubled
  separator) and \<open>.\<close> are dropped; \<open>..\<close> removes the element before it, is dropped at the
  root of a rooted path, and is kept at the start of a relative one.
\<close>

definition cleanStep :: "bool \<Rightarrow> string list \<Rightarrow> string \<Rightarrow> string list" where
  "cleanStep rooted acc c =
     (if c = [] \<or> c = ''.'' then acc
      else if c = ''..'' then
        (case acc of
           [] \<Rightarrow> (if rooted then [] else [''..''])
         | x # xs \<Rightarrow> (if x = ''..'' then ''..'' # acc else xs))
      else c # acc)"

definition filepath_Clean :: "string \<Rightarrow> string" where
  "filepath_Clean p =
     (if p = [] then ''.''
      else
        (let rooted = (hd p = CHR ''/'');
             body = joinSlash (rev (foldl (cleanStep rooted) [] (splitSlash p)))
         in if rooted then ''/'' @ body
            else if body = [] then ''.'' else body))"

text \<open>\<open>filepath.Join\<close>: leading empty elements are ignored, the rest is joined and cleaned.\<close>

definition filepath_Join :: "string list \<Rightarrow> string" where
  "filepath_Join elems =
     (case dropWhile (\<lambda>e. e = []) elems of
        [] \<Rightarrow> []
      | es \<Rightarrow> filepath_Clean (joinSlash es))"

text \<open>\<open>filepath.Base\<close>: the last element, after trailing separators are removed.\<close>

definition filepath_Base :: "string \<Rightarrow> string" where
  "filepath_Base p =
     (if p = [] then ''.''
      else
        (let s = rev (dropWhile (\<lambda>c. c = CHR ''/'') (rev p));
             b = rev (takeWhile (\<lambda>c. c \<noteq> CHR ''/'') (rev s))
         in if b = [] then ''/'' else b))"

text \<open>\<open>filepath.Ext\<close>: the suffix from the last dot of the last element, or empty.\<close>

definition filepath_Ext :: "string \<Rightarrow> string" where
  "filepath_Ext p =
     (let t = takeWhile (\<lambda>c. c \<noteq> CHR ''/'') (rev p)
      in if CHR ''.'' \<in> set t then CHR ''.'' # rev (takeWhile (\<lambda>c. c \<noteq> CHR ''.'') t) else [])"

text \<open>\<open>strings.Replace(s, " ", "-", -1)\<close>.\<close>

definition replaceSpaces :: "string \<Rightarrow> string" where
  "replaceSpaces s = map (\<lambda>c. if c = CHR '' '' then CHR ''-'' else c) s"

section \<open>Errors\<close>

text \<open>
  \<open>Canceled\<close> is \<open>context.Canceled\<close>, the value of \<open>ctx.Err()\<close> once the bundler's context
  has been cancelled. \<open>Failure msg\<close> is any other primitive error (of the operating system,
  the network or a tool, or one made by \<open>fmt.Errorf\<close>). \<open>Wrap msg e\<close> is
  \<open>errors.Wrap(e, msg)\<close>; \<open>cause\<close> is \<open>errors.Cause\<close>.
\<close>

datatype error = Canceled | Failure string | Wrap string error


fun errorText :: "error \<Rightarrow> string" where
  "errorText Canceled = ''context canceled''"
| "errorText (Failure msg) = msg"
| "errorText (Wrap msg e) = msg @ '': '' @ errorText e"

section \<open>Resolving configured paths\<close>

text \<open>
  \<open>filepath.Abs\<close>. The first argument is what \<open>os.Getwd()\<close> returns (a directory and an
  error); it is only consulted for a relative path.
\<close>

definition filepath_Abs :: "string \<times> error option \<Rightarrow> string \<Rightarrow> string \<times> error option" where
  "filepath_Abs getwd p =
     (if isAbs p then (filepath_Clean p, None)
      else (case getwd of
              (wd, Some err) \<Rightarrow> ([], Some err)
            | (wd, None) \<Rightarrow> (filepath_Join [wd, p], None)))"

text \<open>
  \<open>absPath(configPath, defaultPathFn)\<close>, with both named results. \<open>defaultPathFn\<close> is
  \<open>None\<close> for a nil function and otherwise the pair the function returns when called.
\<close>

definition absPath ::
  "string \<times> error option \<Rightarrow> string \<Rightarrow> (string \<times> error option) option \<Rightarrow> string \<times> error option" where
  "absPath getwd configPath defaultPathFn =
     (if length configPath > 0 then
        (case filepath_Abs getwd configPath of
           (out, Some err) \<Rightarrow> (out, Some (Wrap (''filepath.Abs of '' @ configPath @ '' failed'') err))
         | (out, None) \<Rightarrow> (out, None))
      else
        (case defaultPathFn of
           Some (out, Some err) \<Rightarrow>
             (out, Some (Wrap (''default path function to compute absPath of '' @ configPath @ '' failed'') err))
         | Some (out, None) \<Rightarrow> (out, None)
         | None \<Rightarrow> ([], None)))"

section \<open>Configuration\<close>

record ConfigurationEnvironment =
  Arch :: string
  OS :: string
  Tags :: string

text \<open>
  The \<open>Bundler\<close> struct. Its \<open>Client\<close>, \<open>ctx\<close> and \<open>cancel\<close> fields are not data of the
  configuration: the cancellation state of \<open>ctx\<close> is part of the world the operations run in.
\<close>

record Bundler =
  appName :: string
  environments :: "ConfigurationEnvironment list"
  pathAstilectron :: string
  pathBuild :: string
  pathCache :: string
  pathIconDarwin :: string
  pathIconLinux :: string
  pathIconWindows :: string
  pathInput :: string
  pathGoBinary :: string
  pathOutput :: string
  pathResources :: string
  pathVendor :: string
  pathBindOutput :: string
  bindPackage :: string
  bindTags :: string
  environmentFilter :: string

text \<open>The name \<open>eName\<close> that \<open>Bundle\<close> builds for the environment filter.\<close>

definition eName :: "ConfigurationEnvironment \<Rightarrow> string" where
  "eName e =
     (let n = OS e @ ''-'';
          n = (if Tags e \<noteq> [] then n @ replaceSpaces (Tags e) @ ''-'' else n)
      in n @ Arch e)"

text \<open>The directory \<open>environmentPath\<close> that \<open>bundle\<close> removes, recreates and builds into.\<close>

definition environmentPath :: "Bundler \<Rightarrow> ConfigurationEnvironment \<Rightarrow> string" where
  "environmentPath b e =
     (let p = filepath_Join [pathOutput b, OS e];
          p = (if length (Tags e) > 0 then p @ ''-'' @ replaceSpaces (Tags e) else p)
      in p @ ''-'' @ Arch e)"

text \<open>
  A plain element name: not empty, no separator, and neither \<open>.\<close> nor \<open>..\<close>. The three
  operating systems the constructor accepts are plain.
\<close>

definition plainName :: "string \<Rightarrow> bool" where
  "plainName n = (n \<noteq> [] \<and> CHR ''/'' \<notin> set n \<and> n \<noteq> ''.'' \<and> n \<noteq> ''..'')"

text \<open>
  A cleaned absolute path below the root: \<open>/c1/c2/.../cn\<close> with \<open>n > 0\<close> plain elements.
  \<open>filepath.Abs\<close> and \<open>filepath.Join\<close> return such paths (or the root itself).
\<close>

definition cleanAbs :: "string \<Rightarrow> bool" where
  "cleanAbs p = (\<exists>cs. cs \<noteq> [] \<and> list_all plainName cs \<and> p = CHR ''/'' # joinSlash cs)"

section \<open>The world the bundler runs in\<close>

text \<open>
  File contents are kept symbolically: bytes this program writes itself (\<open>Literal\<close>), the
  body served by a URL (\<open>Remote\<close>), and the output of an external tool, named with its
  arguments (\<open>Produced\<close>). A node is a directory or a file with its permission bits.
\<close>

datatype content = Literal string | Remote string | Produced string "string list"

datatype node = Dir | File content nat

type_synonym filesystem = "string \<Rightarrow> node option"

text \<open>
  \<open>under d q\<close>: the path \<open>q\<close> is \<open>d\<close> itself or lies below the directory \<open>d\<close>.
\<close>

definition dirPrefix :: "string \<Rightarrow> string" where
  "dirPrefix d = (if d \<noteq> [] \<and> last d = CHR ''/'' then d else d @ ''/'')"

definition under :: "string \<Rightarrow> string \<Rightarrow> bool" where
  "under d q = (q = d \<or> prefix (dirPrefix d) q)"

text \<open>The proper ancestors of a path: what stands before each of its separators.\<close>

fun ancestorsFrom :: "string \<Rightarrow> string \<Rightarrow> string list" where
  "ancestorsFrom pre [] = []"
| "ancestorsFrom pre (c # cs) =
     (if c = CHR ''/'' then [if pre = [] then ''/'' else pre] else []) @ ancestorsFrom (pre @ [c]) cs"

definition ancestors :: "string \<Rightarrow> string list" where
  "ancestors p = ancestorsFrom [] p"

definition isFile :: "node option \<Rightarrow> bool" where
  "isFile x = (case x of Some (File c m) \<Rightarrow> True | _ \<Rightarrow> False)"

definition removeTree :: "filesystem \<Rightarrow> string \<Rightarrow> filesystem" where
  "removeTree f p = (\<lambda>q. if under p q then None else f q)"

definition mkdirs :: "filesystem \<Rightarrow> string \<Rightarrow> filesystem" where
  "mkdirs f p = (\<lambda>q. if (q = p \<or> q \<in> set (ancestors p)) \<and> f q = None then Some Dir else f q)"

text \<open>
  Copying the tree at \<open>src\<close> to \<open>dst\<close>: \<open>dst\<close> becomes what \<open>src\<close> is, and a path below
  \<open>dst\<close> becomes what the corresponding path below \<open>src\<close> is, where that exists. Everything
  else stays (a copy merges into an existing directory). Moving also removes the tree at
  \<open>src\<close>.
\<close>

definition relocate :: "string \<Rightarrow> string \<Rightarrow> string \<Rightarrow> string" where
  "relocate src dst q = dirPrefix src @ drop (length (dirPrefix dst)) q"

definition copyTree :: "filesystem \<Rightarrow> string \<Rightarrow> string \<Rightarrow> filesystem" where
  "copyTree f src dst =
     (\<lambda>q. if q = dst then f src
          else if prefix (dirPrefix dst) q \<and> f (relocate src dst q) \<noteq> None then f (relocate src dst q)
          else f q)"

definition moveTree :: "filesystem \<Rightarrow> string \<Rightarrow> string \<Rightarrow> filesystem" where
  "moveTree f src dst =
     (\<lambda>q. if q = dst then f src
          else if prefix (dirPrefix dst) q \<and> f (relocate src dst q) \<noteq> None then f (relocate src dst q)
          else if under src q then None
          else f q)"

text \<open>
  Every call that leaves the program (a system call, a library that does I/O, a tool)
  consumes one event of the world's script. The event says whether the call fails and with
  which error, whether the cancellation token fires while the call is in flight, and what a
  tool prints. An exhausted script means: no failure, no cancellation. A call that fails
  has no effect on the filesystem: the primitives are atomic.
\<close>

record event =
  ev_err :: "error option"
  ev_fire :: bool
  ev_out :: string

text \<open>
  \<open>exec.Cmd\<close>: the fields that \<open>exec.Command\<close> and the bundler set. A nil \<open>Env\<close> (the
  empty list) makes the process inherit the environment of the host; any other \<open>Env\<close> is
  the whole environment of the process. \<open>lookPathErr\<close> is the error of the lookup of the
  program, kept by \<open>exec.Command\<close> until the command is started.
\<close>

record Cmd =
  Path :: string
  Args :: "string list"
  Env :: "string list"
  lookPathErr :: "error option"

record world =
  fs :: filesystem
  cancelled :: bool
  script :: "event list"
  fetches :: "(string \<times> string) list"
  execs :: "Cmd list"
  environ :: "string \<Rightarrow> string"
  now :: string

text \<open>
  What the bundler takes from outside \<open>src/\<close>: the versions and download sources of the
  go-astilectron library, \<open>regexp.MatchString\<close>, and the two file names
  \<open>zipNameAstilectron\<close> and \<open>zipNameElectron\<close>, constants of this package declared in a file
  that is not part of the sources at hand. They are parameters of the model.
\<close>

record Lib =
  VersionAstilectron :: string
  VersionElectron :: string
  AstilectronDownloadSrc :: string
  ElectronDownloadSrc :: "string \<Rightarrow> string \<Rightarrow> string"
  MatchString :: "string \<Rightarrow> string \<Rightarrow> error + bool"
  zipNameAstilectron :: string
  zipNameElectron :: string

type_synonym action = "world \<Rightarrow> error option \<times> world"

definition nextEvent :: "world \<Rightarrow> event" where
  "nextEvent w =
     (case script w of [] \<Rightarrow> \<lparr>ev_err = None, ev_fire = False, ev_out = []\<rparr> | ev # evs \<Rightarrow> ev)"

definition advance :: "world \<Rightarrow> world" where
  "advance w = w\<lparr>script := tl (script w), cancelled := (cancelled w \<or> ev_fire (nextEvent w))\<rparr>"

definition primitive :: "(filesystem \<Rightarrow> error + filesystem) \<Rightarrow> action" where
  "primitive eff w =
     (case ev_err (nextEvent w) of
        Some e \<Rightarrow> (Some e, advance w)
      | None \<Rightarrow>
          (case eff (fs w) of
             Inl e \<Rightarrow> (Some e, advance w)
           | Inr f \<Rightarrow> (None, (advance w)\<lparr>fs := f\<rparr>)))"

text \<open>
  The three shapes of the source's control flow.
  \<open>attempt m wrap k\<close> is \<open>if err = m(); err != nil { err = wrap(err); return }\<close> followed by
  \<open>k\<close>; \<open>checkCtx k\<close> is \<open>if b.ctx.Err() != nil { return b.ctx.Err() }\<close> followed by \<open>k\<close>;
  \<open>succeed\<close> is the final \<open>return\<close> with a nil error.
\<close>

definition attempt :: "action \<Rightarrow> (error \<Rightarrow> error) \<Rightarrow> action \<Rightarrow> action" where
  "attempt m wrap k w =
     (case m w of (Some e, w') \<Rightarrow> (Some (wrap e), w') | (None, w') \<Rightarrow> k w')"

definition checkCtx :: "action \<Rightarrow> action" where
  "checkCtx k w = (if cancelled w then (Some Canceled, w) else k w)"

definition succeed :: action where
  "succeed w = (None, w)"

text \<open>\<open>b.Stop()\<close>: cancels the context.\<close>

definition Stop :: "world \<Rightarrow> world" where
  "Stop w = w\<lparr>cancelled := True\<rparr>"

subsection \<open>The primitives\<close>

definition os_RemoveAll :: "string \<Rightarrow> action" where
  "os_RemoveAll p = primitive (\<lambda>f. Inr (removeTree f p))"

definition os_MkdirAll :: "string \<Rightarrow> action" where
  "os_MkdirAll p =
     primitive (\<lambda>f. if list_ex (\<lambda>a. isFile (f a)) (ancestors p @ [p])
                    then Inl (Failure ''not a directory'')
                    else Inr (mkdirs f p))"

datatype stat_result = StatInfo node | StatNotExist | StatError error

definition os_Stat :: "string \<Rightarrow> world \<Rightarrow> stat_result \<times> world" where
  "os_Stat p w =
     (case ev_err (nextEvent w) of
        Some e \<Rightarrow> (StatError e, advance w)
      | None \<Rightarrow> ((case fs w p of None \<Rightarrow> StatNotExist | Some n \<Rightarrow> StatInfo n), advance w))"

text \<open>\<open>os.IsNotExist(errStat)\<close>.\<close>

definition IsNotExist :: "stat_result \<Rightarrow> bool" where
  "IsNotExist st = (st = StatNotExist)"

definition os_Chmod :: "string \<Rightarrow> nat \<Rightarrow> action" where
  "os_Chmod p mode =
     primitive (\<lambda>f. case f p of
                      None \<Rightarrow> Inl (Failure ''no such file or directory'')
                    | Some Dir \<Rightarrow> Inr f
                    | Some (File c m) \<Rightarrow> Inr (f(p \<mapsto> File c mode)))"

definition ioutil_WriteFile :: "string \<Rightarrow> string \<Rightarrow> nat \<Rightarrow> action" where
  "ioutil_WriteFile p bytes perm =
     primitive (\<lambda>f. case f p of
                      None \<Rightarrow> Inr (f(p \<mapsto> File (Literal bytes) perm))
                    | Some Dir \<Rightarrow> Inl (Failure ''is a directory'')
                    | Some (File c m) \<Rightarrow> Inr (f(p \<mapsto> File (Literal bytes) m)))"

text \<open>
  \<open>astilectron.Download(ctx, client, src, dst)\<close>, the cancellable download of the library.
  A call made after the token has fired sends no request and fails. Any other call is a
  network fetch and is logged as one; it fails with the error of its event, and it fails
  as well when the token fires while it is in flight. A download that fails because of the
  token removes the file it was writing, and its error is the one of the HTTP layer, which
  for a cancelled context is the context's error, wrapped by the library
  (\<open>downloadCanceled\<close>). The directory of \<open>dst\<close> is taken to exist (\<open>reset\<close> creates the
  cache directory before anything is provisioned).
\<close>

definition downloadCanceled :: error where
  "downloadCanceled = Wrap ''astihttp.Download failed'' Canceled"

definition astilectron_Download :: "string \<Rightarrow> string \<Rightarrow> action" where
  "astilectron_Download src dst w =
     (if cancelled w then (Some downloadCanceled, advance w)
      else
        (case primitive (\<lambda>f. Inr (f(dst \<mapsto> File (Remote src) 420)))
                (w\<lparr>fetches := fetches w @ [(src, dst)]\<rparr>) of
           (Some e, w') \<Rightarrow> (Some e, w')
         | (None, w') \<Rightarrow>
             if cancelled w' then (Some downloadCanceled, w'\<lparr>fs := fs w\<rparr>) else (None, w')))"

definition astios_Copy :: "string \<Rightarrow> string \<Rightarrow> action" where
  "astios_Copy src dst =
     primitive (\<lambda>f. case f src of
                      None \<Rightarrow> Inl (Failure ''no such file or directory'')
                    | Some n \<Rightarrow> Inr (copyTree f src dst))"

definition astios_Move :: "string \<Rightarrow> string \<Rightarrow> action" where
  "astios_Move src dst =
     primitive (\<lambda>f. case f src of
                      None \<Rightarrow> Inl (Failure ''no such file or directory'')
                    | Some n \<Rightarrow>
                        if src = dst then Inr f
                        else if under src dst \<or> under dst src then Inl (Failure ''invalid argument'')
                        else Inr (moveTree f src dst))"

definition astizip_Zip :: "string \<Rightarrow> string \<Rightarrow> string \<Rightarrow> action" where
  "astizip_Zip src dst pre =
     primitive (\<lambda>f. Inr (f(dst \<mapsto> File (Produced ''zip'' [src, pre]) 420)))"

text \<open>\<open>bindata.Config\<close>: the fields the bundler sets.\<close>

record bindataConfig =
  Config_Input :: "(string \<times> bool) list"
  Config_Output :: string
  Config_Prefix :: string
  Config_Package :: string
  Config_Tags :: string

definition bindata_Translate :: "bindataConfig \<Rightarrow> action" where
  "bindata_Translate c =
     primitive (\<lambda>f. Inr (f(Config_Output c \<mapsto>
        File (Produced ''bindata''
               (Config_Package c # Config_Tags c # Config_Prefix c # map fst (Config_Input c))) 420)))"

definition rsrc_Embed :: "string \<Rightarrow> string \<Rightarrow> string \<Rightarrow> string \<Rightarrow> action" where
  "rsrc_Embed out arch manifest ico =
     primitive (\<lambda>f. Inr (f(out \<mapsto> File (Produced ''rsrc'' [arch, manifest, ico]) 420)))"

fun argAfter :: "string \<Rightarrow> string list \<Rightarrow> string option" where
  "argAfter k [] = None"
| "argAfter k [a] = None"
| "argAfter k (a # v # rest) = (if a = k then Some v else argAfter k (v # rest))"

text \<open>
  \<open>exec.LookPath\<close> on a Unix host, for a name without separator: the directories of the
  host's \<open>PATH\<close> (split at the colons, an empty element standing for \<open>.\<close>) are searched in
  order for a file of that name with an execute bit (\<open>mode & 0111 != 0\<close>).
\<close>

fun splitColon :: "string \<Rightarrow> string list" where
  "splitColon [] = [[]]"
| "splitColon (c # cs) =
     (if c = CHR '':'' then [] # splitColon cs
      else (case splitColon cs of [] \<Rightarrow> [[c]] | x # xs \<Rightarrow> (c # x) # xs))"

definition filepath_SplitList :: "string \<Rightarrow> string list" where
  "filepath_SplitList p = (if p = [] then [] else splitColon p)"

definition executable :: "node option \<Rightarrow> bool" where
  "executable x =
     (case x of
        Some (File c m) \<Rightarrow> (m div 64) mod 2 = 1 \<or> (m div 8) mod 2 = 1 \<or> m mod 2 = 1
      | _ \<Rightarrow> False)"

definition exec_LookPath :: "world \<Rightarrow> string \<Rightarrow> error + string" where
  "exec_LookPath w file =
     (case filter (\<lambda>p. executable (fs w p))
             (map (\<lambda>d. filepath_Join [if d = [] then ''.'' else d, file])
                (filepath_SplitList (environ w ''PATH''))) of
        [] \<Rightarrow> Inl (Failure (''exec: '' @ [CHR 0x22] @ file @ [CHR 0x22]
                            @ '': executable file not found in $PATH''))
      | p # ps \<Rightarrow> Inr p)"

text \<open>
  \<open>exec.Command(name, arg...)\<close>: the arguments start with the name as given. A name
  without separator is looked up: the file found becomes \<open>Path\<close>, and a failed lookup is
  kept in the command.
\<close>

definition exec_Command :: "world \<Rightarrow> string \<Rightarrow> string list \<Rightarrow> Cmd" where
  "exec_Command w name arg =
     (let c = \<lparr>Path = name, Args = name # arg, Env = [], lookPathErr = None\<rparr>
      in if filepath_Base name = name then
           (case exec_LookPath w name of
              Inl err \<Rightarrow> c\<lparr>lookPathErr := Some err\<rparr>
            | Inr lp \<Rightarrow> c\<lparr>Path := lp\<rparr>)
         else c)"

text \<open>
  \<open>cmd.CombinedOutput()\<close>. A command whose lookup failed is not started: the error of
  the lookup is returned, with no output. Otherwise the process is started and logged, with
  its arguments and environment; when it succeeds, the compiler has written its binary at
  the path given after \<open>-o\<close> among the arguments that follow the program name. The result
  is the captured output and the error.
\<close>

definition cmd_CombinedOutput :: "Cmd \<Rightarrow> world \<Rightarrow> (string \<times> error option) \<times> world" where
  "cmd_CombinedOutput c w =
     (case lookPathErr c of
        Some err \<Rightarrow> (([], Some err), w)
      | None \<Rightarrow>
          (let w0 = w\<lparr>execs := execs w @ [c]\<rparr>;
               ev = nextEvent w0
           in case ev_err ev of
                Some e \<Rightarrow> ((ev_out ev, Some e), advance w0)
              | None \<Rightarrow>
                  ((ev_out ev, None),
                   (case argAfter ''-o'' (tl (Args c)) of
                      None \<Rightarrow> advance w0
                    | Some p \<Rightarrow>
                        (advance w0)\<lparr>fs := (fs w0)(p \<mapsto> File (Produced (Path c) (Args c)) 493)\<rparr>))))"

section \<open>The bundler\<close>

subsection \<open>Vendor provisioning\<close>

definition provisionVendorZip :: "string \<Rightarrow> string \<Rightarrow> string \<Rightarrow> action" where
  "provisionVendorZip pDownload pCache pVendor w =
     (case os_Stat pCache w of
        (errStat, w1) \<Rightarrow>
          attempt
            (if IsNotExist errStat then astilectron_Download pDownload pCache else succeed)
            (Wrap (''downloading '' @ pDownload @ '' into '' @ pCache @ '' failed''))
            (checkCtx
              (attempt (astios_Copy pCache pVendor)
                 (Wrap (''copying '' @ pCache @ '' to '' @ pVendor @ '' failed''))
                 (checkCtx succeed))) w1)"

definition cacheAstilectron :: "Lib \<Rightarrow> Bundler \<Rightarrow> string" where
  "cacheAstilectron L b =
     filepath_Join [pathCache b, ''astilectron-'' @ VersionAstilectron L @ ''.zip'']"

definition cacheElectron :: "Lib \<Rightarrow> Bundler \<Rightarrow> string \<Rightarrow> string \<Rightarrow> string" where
  "cacheElectron L b oS arch =
     filepath_Join [pathCache b, ''electron-'' @ oS @ ''-'' @ arch @ ''-'' @ VersionElectron L @ ''.zip'']"

definition provisionVendorAstilectron :: "Lib \<Rightarrow> Bundler \<Rightarrow> action" where
  "provisionVendorAstilectron L b =
     (let p = cacheAstilectron L b;
          rest = provisionVendorZip (AstilectronDownloadSrc L) p
                   (filepath_Join [pathVendor b, zipNameAstilectron L])
      in if length (pathAstilectron b) > 0 then
           attempt (astizip_Zip (pathAstilectron b) p (''astilectron-'' @ VersionAstilectron L))
             (Wrap (''zipping '' @ pathAstilectron b @ '' into '' @ p @ '' failed''))
             (checkCtx rest)
         else rest)"

definition provisionVendorElectron :: "Lib \<Rightarrow> Bundler \<Rightarrow> string \<Rightarrow> string \<Rightarrow> action" where
  "provisionVendorElectron L b oS arch =
     provisionVendorZip (ElectronDownloadSrc L oS arch) (cacheElectron L b oS arch)
       (filepath_Join [pathVendor b, zipNameElectron L])"

definition provisionVendor :: "Lib \<Rightarrow> Bundler \<Rightarrow> string \<Rightarrow> string \<Rightarrow> action" where
  "provisionVendor L b oS arch =
     attempt (os_RemoveAll (pathVendor b))
       (Wrap (''removing '' @ pathVendor b @ '' failed''))
       (attempt (os_MkdirAll (pathVendor b))
          (Wrap (''mkdirall '' @ pathVendor b @ '' failed''))
          (attempt (provisionVendorAstilectron L b)
             (Wrap ''provisioning astilectron vendor failed'')
             (attempt (provisionVendorElectron L b oS arch)
                (Wrap (''provisioning electron vendor for OS '' @ oS @ '' and arch '' @ arch @ '' failed''))
                succeed)))"

definition ClearCache :: "Bundler \<Rightarrow> action" where
  "ClearCache b =
     attempt (os_RemoveAll (pathCache b)) (Wrap (''removing '' @ pathCache b @ '' failed'')) succeed"

subsection \<open>Binding data\<close>

definition bindConfig :: "Bundler \<Rightarrow> string \<Rightarrow> bindataConfig" where
  "bindConfig b oS =
     \<lparr>Config_Input = [(filepath_Join [pathInput b, ''resources''], True),
                      (filepath_Join [pathInput b, ''vendor''], True)],
      Config_Output = filepath_Join [pathBindOutput b, ''bind_'' @ oS @ ''.go''],
      Config_Prefix = pathInput b,
      Config_Package = bindPackage b,
      Config_Tags = (if length (bindTags b) > 0
                     then oS @ [CHR 0x0A] @ ''// +build '' @ bindTags b @ []
                     else oS)\<rparr>"

definition BindData :: "Lib \<Rightarrow> Bundler \<Rightarrow> string \<Rightarrow> string \<Rightarrow> string \<Rightarrow> action" where
  "BindData L b oS arch tags =
     attempt (provisionVendor L b oS arch)
       (Wrap ''provisioning the vendor failed'')
       (bindata_Translate (bindConfig b oS))"

definition sysoPath :: "Bundler \<Rightarrow> string" where
  "sysoPath b = filepath_Join [pathInput b, ''windows.syso'']"

definition addWindowsSyso :: "Bundler \<Rightarrow> string \<Rightarrow> action" where
  "addWindowsSyso b arch =
     (if length (pathIconWindows b) > 0 then
        attempt (rsrc_Embed (sysoPath b) arch [] (pathIconWindows b))
          (Wrap (''running rsrc for icon '' @ pathIconWindows b @ '' into '' @ sysoPath b @ '' failed''))
          succeed
      else succeed)"

subsection \<open>Finishing a bundle\<close>

definition plistEntry :: "string \<Rightarrow> string \<Rightarrow> string" where
  "plistEntry k v =
     [CHR 0x09, CHR 0x09] @ ''<key>'' @ k @ ''</key>'' @ [CHR 0x0A] @
     [CHR 0x09, CHR 0x09] @ ''<string>'' @ v @ ''</string>'' @ [CHR 0x0A]"

text \<open>The bytes \<open>finishDarwin\<close> writes to \<open>Info.plist\<close>.\<close>

definition infoPlist :: "Bundler \<Rightarrow> string" where
  "infoPlist b =
     ''<?xml version='' @ [CHR 0x22] @ ''1.0'' @ [CHR 0x22] @ '' encoding='' @ [CHR 0x22] @ ''UTF-8''
       @ [CHR 0x22] @ ''?><!DOCTYPE plist PUBLIC '' @ [CHR 0x22] @ ''-//Apple//DTD PLIST 1.0//EN''
       @ [CHR 0x22] @ '' '' @ [CHR 0x22] @ ''http://www.apple.com/DTDs/PropertyList-1.0.dtd''
       @ [CHR 0x22] @ ''>'' @ [CHR 0x0A] @
     ''<plist version='' @ [CHR 0x22] @ ''1.0'' @ [CHR 0x22] @ ''>'' @ [CHR 0x0A] @
     [CHR 0x09] @ ''<dict>'' @ [CHR 0x0A] @
     plistEntry ''CFBundleIconFile'' (appName b @ filepath_Ext (pathIconDarwin b)) @
     plistEntry ''CFBundleDisplayName'' (appName b) @
     plistEntry ''CFBundleExecutable'' (appName b) @
     plistEntry ''CFBundleName'' (appName b) @
     plistEntry ''CFBundleIdentifier'' (''com.'' @ appName b) @
     [CHR 0x09] @ ''</dict>'' @ [CHR 0x0A] @
     ''</plist>''"

definition contentsPath :: "Bundler \<Rightarrow> string \<Rightarrow> string" where
  "contentsPath b envPath = filepath_Join [envPath, appName b @ ''.app'', ''Contents'']"

definition macOSPath :: "Bundler \<Rightarrow> string \<Rightarrow> string" where
  "macOSPath b envPath = filepath_Join [contentsPath b envPath, ''MacOS'']"

definition macOSBinaryPath :: "Bundler \<Rightarrow> string \<Rightarrow> string" where
  "macOSBinaryPath b envPath = filepath_Join [macOSPath b envPath, appName b]"

definition resourcesPath :: "Bundler \<Rightarrow> string \<Rightarrow> string" where
  "resourcesPath b envPath = filepath_Join [contentsPath b envPath, ''Resources'']"

definition iconPath :: "Bundler \<Rightarrow> string \<Rightarrow> string" where
  "iconPath b envPath =
     filepath_Join [resourcesPath b envPath, appName b @ filepath_Ext (pathIconDarwin b)]"

definition plistPath :: "Bundler \<Rightarrow> string \<Rightarrow> string" where
  "plistPath b envPath = filepath_Join [contentsPath b envPath, ''Info.plist'']"

definition finishDarwin :: "Bundler \<Rightarrow> string \<Rightarrow> string \<Rightarrow> action" where
  "finishDarwin b envPath binaryPath =
     attempt (os_MkdirAll (macOSPath b envPath))
       (Wrap (''mkdirall of '' @ macOSPath b envPath @ '' failed''))
       (attempt (astios_Move binaryPath (macOSBinaryPath b envPath))
          (Wrap (''moving '' @ binaryPath @ '' to '' @ macOSBinaryPath b envPath @ '' failed''))
          (checkCtx
            (attempt (os_Chmod (macOSBinaryPath b envPath) 511)
               (Wrap (''chmoding '' @ macOSBinaryPath b envPath @ '' failed''))
               (attempt
                  (if length (pathIconDarwin b) > 0 then
                     attempt (os_MkdirAll (resourcesPath b envPath))
                       (Wrap (''mkdirall of '' @ resourcesPath b envPath @ '' failed''))
                       (attempt (astios_Copy (pathIconDarwin b) (iconPath b envPath))
                          (Wrap (''copying '' @ pathIconDarwin b @ '' to '' @ iconPath b envPath @ '' failed''))
                          (checkCtx succeed))
                   else succeed)
                  (\<lambda>e. e)
                  (attempt (ioutil_WriteFile (plistPath b envPath) (infoPlist b) 511)
                     (Wrap (''adding Info.plist to '' @ plistPath b envPath @ '' failed''))
                     succeed)))))"

definition finishLinux :: "Bundler \<Rightarrow> string \<Rightarrow> string \<Rightarrow> action" where
  "finishLinux b envPath binaryPath =
     (let linuxBinaryPath = filepath_Join [envPath, appName b]
      in attempt (astios_Move binaryPath linuxBinaryPath)
           (Wrap (''moving '' @ binaryPath @ '' to '' @ linuxBinaryPath @ '' failed''))
           (checkCtx succeed))"

definition finishWindows :: "Bundler \<Rightarrow> string \<Rightarrow> string \<Rightarrow> action" where
  "finishWindows b envPath binaryPath =
     (let windowsBinaryPath = filepath_Join [envPath, appName b @ ''.exe'']
      in attempt (astios_Move binaryPath windowsBinaryPath)
           (Wrap (''moving '' @ binaryPath @ '' to '' @ windowsBinaryPath @ '' failed''))
           (checkCtx succeed))"

subsection \<open>Building one environment\<close>

text \<open>
  \<open>ldflags\<close> is a Go map; the model keeps the entries in the order the source adds them
  (Go iterates a map in no fixed order, and no property below depends on it).
\<close>

type_synonym ldflags = "(string \<times> string list) list"

fun stringsJoin :: "string list \<Rightarrow> string \<Rightarrow> string" where
  "stringsJoin [] sep = []"
| "stringsJoin [x] sep = x"
| "stringsJoin (x # y # ys) sep = x @ sep @ stringsJoin (y # ys) sep"

definition ldflags_string :: "ldflags \<Rightarrow> string" where
  "ldflags_string l =
     stringsJoin (concat (map (\<lambda>(k, ss). map (\<lambda>s. ''-'' @ k @ '' '' @ s) ss) l)) '' ''"

definition buildLdflags :: "Bundler \<Rightarrow> ConfigurationEnvironment \<Rightarrow> world \<Rightarrow> ldflags" where
  "buildLdflags b e w =
     [(''X'', [[CHR 0x22] @ bindPackage b @ ''.BuiltAt='' @ now w @ [CHR 0x22]])]
     @ (if OS e = ''windows'' then [(''H'', [''windowsgui''])] else [])"

definition binaryPathOf :: "Bundler \<Rightarrow> ConfigurationEnvironment \<Rightarrow> string" where
  "binaryPathOf b e = filepath_Join [environmentPath b e, ''binary'']"

text \<open>The command \<open>bundle\<close> builds with \<open>exec.Command\<close>, and the \<open>Env\<close> it assigns.\<close>

definition buildCmd :: "Bundler \<Rightarrow> ConfigurationEnvironment \<Rightarrow> world \<Rightarrow> Cmd" where
  "buildCmd b e w =
     (exec_Command w (pathGoBinary b)
        [''build'', ''-ldflags'', ldflags_string (buildLdflags b e w),
         ''-o'', binaryPathOf b e, ''-tags'', Tags e, pathBuild b])
     \<lparr>Env := [''GOARCH='' @ Arch e,
              ''GOOS='' @ OS e,
              ''GOPATH='' @ environ w ''GOPATH'',
              ''PATH='' @ environ w ''PATH'']\<rparr>"

definition finish :: "Bundler \<Rightarrow> ConfigurationEnvironment \<Rightarrow> action" where
  "finish b e =
     (if OS e = ''darwin'' then finishDarwin b (environmentPath b e) (binaryPathOf b e)
      else if OS e = ''linux'' then finishLinux b (environmentPath b e) (binaryPathOf b e)
      else if OS e = ''windows'' then finishWindows b (environmentPath b e) (binaryPathOf b e)
      else (\<lambda>w. (Some (Failure (''OS '' @ OS e @ '' is not yet implemented'')), w)))"

definition compile :: "Bundler \<Rightarrow> ConfigurationEnvironment \<Rightarrow> action" where
  "compile b e w =
     (case cmd_CombinedOutput (buildCmd b e w) w of
        ((out, Some err), w') \<Rightarrow> (Some (Wrap (''building failed: '' @ out) err), w')
      | ((out, None), w') \<Rightarrow> (None, w'))"

text \<open>
  The method \<open>bundle\<close> (lower case) of the source; the word is reserved in Isabelle, so the
  definition is named \<open>bundleEnv\<close>.
\<close>

definition bundleEnv :: "Lib \<Rightarrow> Bundler \<Rightarrow> ConfigurationEnvironment \<Rightarrow> action" where
  "bundleEnv L b e =
     attempt (os_RemoveAll (environmentPath b e))
       (Wrap (''removing '' @ environmentPath b e @ '' failed''))
       (attempt (os_MkdirAll (environmentPath b e))
          (Wrap (''mkdirall '' @ environmentPath b e @ '' failed''))
          (attempt (BindData L b (OS e) (Arch e) (Tags e))
             (Wrap ''binding data failed'')
             (attempt (if OS e = ''windows'' then addWindowsSyso b (Arch e) else succeed)
                (Wrap ''adding windows .syso failed'')
                (attempt (compile b e) (\<lambda>err. err)
                   (finish b e)))))"

subsection \<open>The whole run\<close>

fun mkdirEach :: "string list \<Rightarrow> action" where
  "mkdirEach [] = succeed"
| "mkdirEach (p # ps) =
     attempt (os_MkdirAll p) (Wrap (''mkdirall '' @ p @ '' failed'')) (mkdirEach ps)"

definition reset :: "Bundler \<Rightarrow> action" where
  "reset b = mkdirEach [pathCache b, pathOutput b]"

text \<open>
  The loop of \<open>Bundle\<close> over the environments, in the order of the list. The filter is
  consulted before anything is done for the environment.
\<close>

fun bundleEach :: "Lib \<Rightarrow> Bundler \<Rightarrow> ConfigurationEnvironment list \<Rightarrow> action" where
  "bundleEach L b [] = succeed"
| "bundleEach L b (e # es) =
     (let build = attempt (bundleEnv L b e)
                    (Wrap (''bundling for environment '' @ OS e @ ''/'' @ Arch e @ '' failed''))
                    (bundleEach L b es)
      in if environmentFilter b \<noteq> [] then
           (case MatchString L (environmentFilter b) (eName e) of
              Inl err \<Rightarrow> (\<lambda>w. (Some (Wrap ''environment matching failed'' err), w))
            | Inr m \<Rightarrow> if \<not> m then bundleEach L b es else build)
         else build)"

definition Bundle :: "Lib \<Rightarrow> Bundler \<Rightarrow> action" where
  "Bundle L b =
     attempt (reset b) (Wrap ''resetting bundler failed'') (bundleEach L b (environments b))"

section \<open>Notions used in the statements\<close>

text \<open>\<open>unchanged g m\<close>: the action \<open>m\<close> never changes the component \<open>g\<close> of the world.\<close>

definition unchanged :: "(world \<Rightarrow> 'a) \<Rightarrow> action \<Rightarrow> bool" where
  "unchanged g m = (\<forall>w. g (snd (m w)) = g w)"

text \<open>
  \<open>inert g\<close>: the component \<open>g\<close> of the world is not affected by the passing of an event,
  by a change of the filesystem or by a change of the log of fetches.
\<close>

definition inert :: "(world \<Rightarrow> 'a) \<Rightarrow> bool" where
  "inert g = (\<forall>w. g (advance w) = g w \<and> (\<forall>f. g (w\<lparr>fs := f\<rparr>) = g w) \<and> (\<forall>x. g (w\<lparr>fetches := x\<rparr>) = g w))"

text \<open>\<open>below d cs\<close>: the path reached from \<open>d\<close> through the elements \<open>cs\<close>.\<close>

definition below :: "string \<Rightarrow> string list \<Rightarrow> string" where
  "below d cs = d @ concat (map (\<lambda>c. CHR ''/'' # c) cs)"

text \<open>Two paths are apart when neither lies under the other: their trees share nothing.\<close>

definition apart :: "string \<Rightarrow> string \<Rightarrow> bool" where
  "apart a b = (\<not> under a b \<and> \<not> under b a)"

text \<open>The two places in the vendor directory that \<open>provisionVendor\<close> copies to.\<close>

definition vendorAstilectron :: "Lib \<Rightarrow> Bundler \<Rightarrow> string" where
  "vendorAstilectron L b = filepath_Join [pathVendor b, zipNameAstilectron L]"

definition vendorElectron :: "Lib \<Rightarrow> Bundler \<Rightarrow> string" where
  "vendorElectron L b = filepath_Join [pathVendor b, zipNameElectron L]"

text \<open>
  \<open>selected L b e\<close>: the environment passes the filter of \<open>Bundle\<close>.
  \<open>footprint L b e\<close>: the paths that building \<open>e\<close> removes, creates or writes (each with
  what lies below it).
\<close>

definition selected :: "Lib \<Rightarrow> Bundler \<Rightarrow> ConfigurationEnvironment \<Rightarrow> bool" where
  "selected L b e =
     (environmentFilter b = [] \<or> MatchString L (environmentFilter b) (eName e) = Inr True)"

definition footprint :: "Lib \<Rightarrow> Bundler \<Rightarrow> ConfigurationEnvironment \<Rightarrow> string list" where
  "footprint L b e =
     [environmentPath b e, binaryPathOf b e,
      pathVendor b, vendorAstilectron L b, vendorElectron L b,
      cacheAstilectron L b, cacheElectron L b (OS e) (Arch e),
      Config_Output (bindConfig b (OS e)), sysoPath b,
      macOSPath b (environmentPath b e), macOSBinaryPath b (environmentPath b e),
      resourcesPath b (environmentPath b e), iconPath b (environmentPath b e),
      plistPath b (environmentPath b e),
      filepath_Join [environmentPath b e, appName b],
      filepath_Join [environmentPath b e, appName b @ ''.exe'']]"


section \<open>An example configuration\<close>

text \<open>A concrete bundler, environments and worlds, on which the definitions are evaluated.\<close>

definition demoEnvSlash :: ConfigurationEnvironment where
  "demoEnvSlash = \<lparr>Arch = ''arm/v7'', OS = ''linux'', Tags = []\<rparr>"

definition demoEnvTags :: ConfigurationEnvironment where
  "demoEnvTags = \<lparr>Arch = ''amd64'', OS = ''linux'', Tags = ''gtk static''\<rparr>"

definition demoBundler :: Bundler where
  "demoBundler =
     \<lparr>appName = ''Demo'', environments = [demoEnvTags],
      pathAstilectron = [], pathBuild = ''demo'', pathCache = ''/cache'',
      pathIconDarwin = ''/icons/demo.icns'', pathIconLinux = [], pathIconWindows = [],
      pathInput = ''/src/demo'', pathGoBinary = ''go'', pathOutput = ''/out'',
      pathResources = ''/src/demo/resources'', pathVendor = ''/src/demo/vendor'',
      pathBindOutput = ''/src/demo'', bindPackage = ''main'', bindTags = [],
      environmentFilter = []\<rparr>"

definition demoZipWorld :: world where
  "demoZipWorld =
     \<lparr>fs = Map.empty(''/cache'' \<mapsto> Dir, ''/src/demo/vendor'' \<mapsto> Dir),
      cancelled = False,
      script = [\<lparr>ev_err = Some (Failure ''permission denied''), ev_fire = False, ev_out = []\<rparr>],
      fetches = [], execs = [], environ = (\<lambda>k. []), now = ''2017-06-01''\<rparr>"



definition demoLib :: Lib where
  "demoLib =
     \<lparr>VersionAstilectron = ''0.6.0'',
      VersionElectron = ''1.6.5'',
      AstilectronDownloadSrc = ''https://example.org/astilectron/v0.6.0.zip'',
      ElectronDownloadSrc = (\<lambda>oS arch. ''https://example.org/electron/v1.6.5/'' @ oS @ ''-'' @ arch @ ''.zip''),
      MatchString = (\<lambda>pattern s. Inr (sublist pattern s)),
      zipNameAstilectron = ''astilectron.zip'',
      zipNameElectron = ''electron.zip''\<rparr>"

definition okEvent :: event where
  "okEvent = \<lparr>ev_err = None, ev_fire = False, ev_out = []\<rparr>"

definition fireEvent :: event where
  "fireEvent = \<lparr>ev_err = None, ev_fire = True, ev_out = []\<rparr>"

definition failEvent :: "string \<Rightarrow> bool \<Rightarrow> event" where
  "failEvent msg fire = \<lparr>ev_err = Some (Failure msg), ev_fire = fire, ev_out = []\<rparr>"

text \<open>A world with an empty cache, parametrised by its script.\<close>

definition demoWorld :: "event list \<Rightarrow> world" where
  "demoWorld evs =
     \<lparr>fs = Map.empty(''/cache'' \<mapsto> Dir, ''/src/demo'' \<mapsto> Dir, ''/out'' \<mapsto> Dir,
                     ''/icons/demo.icns'' \<mapsto> File (Literal ''icns'') 420,
                     ''/usr/bin/go'' \<mapsto> File (Literal ''go'') 493),
      cancelled = False, script = evs, fetches = [], execs = [],
      environ = (\<lambda>k. if k = ''GOPATH'' then ''/go'' else if k = ''PATH'' then ''/usr/bin'' else []),
      now = ''2017-06-01''\<rparr>"

text \<open>The same world with the astilectron archive already in the cache.\<close>

definition demoWorldCached :: "event list \<Rightarrow> world" where
  "demoWorldCached evs =
     (demoWorld evs)\<lparr>fs := (fs (demoWorld evs))
        (''/cache/astilectron-0.6.0.zip'' \<mapsto> File (Remote ''https://example.org/astilectron/v0.6.0.zip'') 420)\<rparr>"


text \<open>The world after a first provisioning for linux/amd64 with an empty cache.\<close>

definition demoProvisioned :: world where
  "demoProvisioned = snd (provisionVendor demoLib demoBundler ''linux'' ''amd64'' (demoWorld []))"

text \<open>
  A bundler with two environments, linux first and then windows, and a script in which
  the sixteenth operation fails: the two of \<open>reset\<close> and the thirteen of the linux build
  succeed, and the windows build fails at its first step.
\<close>

definition demoEnvWindows :: ConfigurationEnvironment where
  "demoEnvWindows = \<lparr>Arch = ''amd64'', OS = ''windows'', Tags = []\<rparr>"

definition demoTwo :: Bundler where
  "demoTwo = demoBundler\<lparr>environments := [demoEnvTags, demoEnvWindows]\<rparr>"

definition demoScript :: "event list" where
  "demoScript =
     [okEvent, okEvent, okEvent, okEvent, okEvent,
      okEvent, okEvent, okEvent, okEvent, okEvent,
      okEvent, okEvent, okEvent, okEvent, okEvent,
      failEvent ''permission denied'' False]"

text \<open>The same bundler with a local astilectron directory configured.\<close>

definition demoOverride :: Bundler where
  "demoOverride = demoBundler\<lparr>pathAstilectron := ''/src/astilectron''\<rparr>"

section \<open>Facts about paths\<close>

lemma splitSlash_nonempty: "splitSlash p \<noteq> []"
  by (induction p) (auto split: list.splits)

lemma splitSlash_append:
  "splitSlash (a @ CHR ''/'' # b) = splitSlash a @ splitSlash b"
  by (induction a) (auto simp: splitSlash_nonempty split: list.splits)

lemma splitSlash_plain: "CHR ''/'' \<notin> set n \<Longrightarrow> splitSlash n = [n]"
  by (induction n) auto

lemma joinSlash_snoc:
  "joinSlash (xs @ [n]) = (if xs = [] then n else joinSlash xs @ ''/'' @ n)"
  by (induction xs rule: joinSlash.induct) auto

lemma joinSlash_two: "joinSlash [d, n] = d @ CHR ''/'' # n"
  by simp

text \<open>Cleaning a path whose last element is a plain name keeps that name at the end.\<close>

lemma Clean_plain_last:
  assumes "plainName n"
  shows "\<exists>pre. filepath_Clean (d @ CHR ''/'' # n) = pre @ n \<and> (pre = [] \<or> last pre = CHR ''/'')"
proof -
  define r where "r = (hd (d @ CHR ''/'' # n) = CHR ''/'')"
  define acc where "acc = foldl (cleanStep r) [] (splitSlash d)"
  define root where "root = (if r then ''/'' else [])"
  have ne: "n \<noteq> []" using assms by (simp add: plainName_def)
  have sp: "splitSlash (d @ CHR ''/'' # n) = splitSlash d @ [n]"
    using assms by (simp add: splitSlash_append splitSlash_plain plainName_def)
  have st: "cleanStep r acc n = n # acc"
    using assms by (simp add: cleanStep_def plainName_def)
  have body: "joinSlash (rev (foldl (cleanStep r) [] (splitSlash (d @ CHR ''/'' # n))))
      = (if acc = [] then n else joinSlash (rev acc) @ ''/'' @ n)"
    by (simp add: sp st joinSlash_snoc acc_def [symmetric])
  have body_ne: "joinSlash (rev (foldl (cleanStep r) [] (splitSlash (d @ CHR ''/'' # n)))) \<noteq> []"
    using ne by (simp add: body)
  have cl: "filepath_Clean (d @ CHR ''/'' # n)
      = root @ joinSlash (rev (foldl (cleanStep r) [] (splitSlash (d @ CHR ''/'' # n))))"
  proof (cases r)
    case True
    then show ?thesis by (simp add: filepath_Clean_def Let_def r_def [symmetric] root_def)
  next
    case False
    then show ?thesis using body_ne
      by (simp add: filepath_Clean_def Let_def r_def [symmetric] root_def)
  qed
  show ?thesis
  proof (cases "acc = []")
    case True
    then have "filepath_Clean (d @ CHR ''/'' # n) = root @ n"
      by (simp add: cl body)
    moreover have "root = [] \<or> last root = CHR ''/''" by (simp add: root_def)
    ultimately show ?thesis by blast
  next
    case False
    then have "filepath_Clean (d @ CHR ''/'' # n) = (root @ joinSlash (rev acc) @ ''/'') @ n"
      by (simp add: cl body)
    moreover have "last (root @ joinSlash (rev acc) @ ''/'') = CHR ''/''" by simp
    ultimately show ?thesis by blast
  qed
qed

lemma Clean_plain: "plainName n \<Longrightarrow> filepath_Clean n = n"
  by (cases n) (auto simp: filepath_Clean_def plainName_def splitSlash_plain cleanStep_def Let_def)

lemma Join_plain_last:
  assumes "plainName n"
  shows "\<exists>pre. filepath_Join [d, n] = pre @ n \<and> (pre = [] \<or> last pre = CHR ''/'')"
proof (cases "d = []")
  case True
  have "n \<noteq> []" using assms by (simp add: plainName_def)
  then have "filepath_Join [d, n] = [] @ n"
    using True assms by (cases n) (simp_all add: filepath_Join_def Clean_plain)
  then show ?thesis by blast
next
  case False
  then have "filepath_Join [d, n] = filepath_Clean (d @ CHR ''/'' # n)"
    by (cases d) (simp_all add: filepath_Join_def)
  then show ?thesis using Clean_plain_last [OF assms] by simp
qed

lemma Base_last_element:
  assumes "s \<noteq> []" "CHR ''/'' \<notin> set s" "pre = [] \<or> last pre = CHR ''/''"
  shows "filepath_Base (pre @ s) = s"
proof -
  have l: "last s \<noteq> CHR ''/''" using assms(1,2) last_in_set by metis
  have d: "dropWhile (\<lambda>c. c = CHR ''/'') (rev s @ rev pre) = rev s @ rev pre"
    using assms(1) l by (cases s rule: rev_cases) simp_all
  have t: "takeWhile (\<lambda>c. c \<noteq> CHR ''/'') (rev s @ rev pre) = rev s"
  proof (cases "pre = []")
    case True
    then show ?thesis using assms(2) by auto
  next
    case False
    then have "hd (rev pre) = CHR ''/''" using assms(3) by (simp add: hd_rev)
    moreover have "rev pre \<noteq> []" using False by simp
    ultimately obtain ys where "rev pre = CHR ''/'' # ys" by (cases "rev pre") auto
    then show ?thesis using assms(2) by (subst takeWhile_append2) auto
  qed
  show ?thesis using assms(1) d t by (simp add: filepath_Base_def Let_def)
qed

lemma Clean_isAbs: "isAbs p \<Longrightarrow> isAbs (filepath_Clean p)"
  by (simp add: isAbs_def filepath_Clean_def Let_def)

lemma Join_isAbs: "isAbs d \<Longrightarrow> isAbs (filepath_Join [d, p])"
  by (cases d) (simp_all add: isAbs_def filepath_Join_def filepath_Clean_def Let_def)

lemma Abs_isAbs:
  "isAbs (fst getwd) \<Longrightarrow> filepath_Abs getwd p = (out, None) \<Longrightarrow> isAbs out"
  by (cases getwd) (auto simp: filepath_Abs_def Clean_isAbs Join_isAbs split: if_splits option.splits)

lemma splitSlash_joinSlash:
  "cs \<noteq> [] \<Longrightarrow> list_all (\<lambda>c. CHR ''/'' \<notin> set c) cs \<Longrightarrow> splitSlash (joinSlash cs) = cs"
proof (induction cs rule: joinSlash.induct)
  case 1
  then show ?case by simp
next
  case (2 x)
  then show ?case by (simp add: splitSlash_plain)
next
  case (3 x y ys)
  then show ?case by (simp add: splitSlash_append splitSlash_plain)
qed

lemma foldl_cleanStep_plain:
  "list_all plainName cs \<Longrightarrow> foldl (cleanStep r) acc cs = rev cs @ acc"
  by (induction cs arbitrary: acc) (auto simp: cleanStep_def plainName_def)

lemma plain_no_slash: "list_all plainName cs \<Longrightarrow> list_all (\<lambda>c. CHR ''/'' \<notin> set c) cs"
  by (induction cs) (auto simp: plainName_def)

lemma Clean_cleanAbs:
  assumes "cs \<noteq> []" "list_all plainName cs"
  shows "filepath_Clean (CHR ''/'' # joinSlash cs) = CHR ''/'' # joinSlash cs"
proof -
  have "splitSlash (CHR ''/'' # joinSlash cs) = [] # cs"
    using assms by (simp add: splitSlash_joinSlash plain_no_slash)
  then show ?thesis
    using assms by (simp add: filepath_Clean_def Let_def foldl_cleanStep_plain cleanStep_def)
qed

lemma cleanAbs_snoc:
  assumes "cleanAbs d" "plainName n"
  shows "cleanAbs (d @ CHR ''/'' # n)"
proof -
  obtain cs where cs: "cs \<noteq> []" "list_all plainName cs" "d = CHR ''/'' # joinSlash cs"
    using assms(1) by (auto simp: cleanAbs_def)
  have "d @ CHR ''/'' # n = CHR ''/'' # joinSlash (cs @ [n])"
    using cs by (simp add: joinSlash_snoc)
  moreover have "list_all plainName (cs @ [n])" using cs assms(2) by simp
  ultimately show ?thesis unfolding cleanAbs_def by blast
qed

lemma Clean_id: "cleanAbs p \<Longrightarrow> filepath_Clean p = p"
  by (auto simp: cleanAbs_def Clean_cleanAbs)

lemma cleanAbs_nonempty: "cleanAbs p \<Longrightarrow> p \<noteq> []"
  by (auto simp: cleanAbs_def)

lemma Join2:
  assumes "cleanAbs d" "plainName n"
  shows "filepath_Join [d, n] = d @ CHR ''/'' # n"
proof -
  have "filepath_Clean (d @ CHR ''/'' # n) = d @ CHR ''/'' # n"
    using Clean_id [OF cleanAbs_snoc [OF assms]] .
  then show ?thesis using cleanAbs_nonempty [OF assms(1)]
    by (cases d) (simp_all add: filepath_Join_def)
qed


lemma joinSlash_last: "cs \<noteq> [] \<Longrightarrow> list_all plainName cs \<Longrightarrow> joinSlash cs \<noteq> [] \<and> last (joinSlash cs) \<noteq> CHR ''/''"
proof (induction cs rule: joinSlash.induct)
  case 1
  then show ?case by simp
next
  case (2 x)
  then show ?case by (auto simp: plainName_def) (metis last_in_set)
next
  case (3 x y ys)
  then show ?case by simp
qed

lemma cleanAbs_last: "cleanAbs p \<Longrightarrow> last p \<noteq> CHR ''/''"
  using joinSlash_last by (auto simp: cleanAbs_def)

lemma dirPrefix_cleanAbs: "cleanAbs p \<Longrightarrow> dirPrefix p = p @ ''/''"
  using cleanAbs_last by (simp add: dirPrefix_def)

lemma under_refl: "under d d"
  by (simp add: under_def)

lemma prefix_dirPrefix: "prefix d (dirPrefix d)"
  by (simp add: dirPrefix_def)

lemma under_trans: "under a b \<Longrightarrow> under b c \<Longrightarrow> under a c"
  unfolding under_def using prefix_dirPrefix prefix_order.trans by metis

lemma under_antisym: "under a b \<Longrightarrow> under b a \<Longrightarrow> a = b"
proof (rule ccontr)
  assume ab: "under a b" and ba: "under b a" and ne: "a \<noteq> b"
  then have p1: "prefix (dirPrefix a) b" and p2: "prefix (dirPrefix b) a"
    by (auto simp: under_def)
  have "prefix a b" using p1 prefix_dirPrefix prefix_order.trans by metis
  moreover have "prefix b a" using p2 prefix_dirPrefix prefix_order.trans by metis
  ultimately show False using ne by (simp add: prefix_order.antisym)
qed

lemma under_child: "under d (d @ CHR ''/'' # x)"
  by (auto simp: under_def dirPrefix_def prefix_def)

lemma ancestorsFrom_under: "a \<in> set (ancestorsFrom pre rest) \<Longrightarrow> under a (pre @ rest)"
proof (induction rest arbitrary: pre)
  case Nil
  then show ?case by simp
next
  case (Cons c cs)
  show ?case
  proof (cases "c = CHR ''/'' \<and> a = (if pre = [] then ''/'' else pre)")
    case True
    then show ?thesis by (auto simp: under_def dirPrefix_def prefix_def)
  next
    case False
    then have "a \<in> set (ancestorsFrom (pre @ [c]) cs)" using Cons.prems by (auto split: if_splits)
    then show ?thesis using Cons.IH [of "pre @ [c]"] by simp
  qed
qed

lemma ancestors_under: "a \<in> set (ancestors p) \<Longrightarrow> under a p"
  using ancestorsFrom_under [of a "[]" p] by (simp add: ancestors_def)

lemma siblings_not_under:
  assumes "a \<noteq> []" "CHR ''/'' \<notin> set a" "CHR ''/'' \<notin> set b" "a \<noteq> b"
  shows "\<not> under (d @ CHR ''/'' # a) (d @ CHR ''/'' # b)"
proof
  assume "under (d @ CHR ''/'' # a) (d @ CHR ''/'' # b)"
  then have "prefix (dirPrefix (d @ CHR ''/'' # a)) (d @ CHR ''/'' # b)"
    using assms(4) by (auto simp: under_def)
  moreover have "last a \<noteq> CHR ''/''" using assms(1,2) last_in_set by metis
  ultimately have "prefix (d @ CHR ''/'' # a @ ''/'') (d @ CHR ''/'' # b)"
    using assms(1) by (simp add: dirPrefix_def)
  then have "prefix (a @ ''/'') b" by simp
  then have "CHR ''/'' \<in> set b" by (auto simp: prefix_def)
  then show False using assms(3) by simp
qed

section \<open>Facts about actions\<close>

subsection \<open>Worlds and events\<close>

lemma advance_fields [simp]:
  "fs (advance w) = fs w"
  "fetches (advance w) = fetches w"
  "execs (advance w) = execs w"
  "environ (advance w) = environ w"
  "now (advance w) = now w"
  "script (advance w) = tl (script w)"
  "cancelled (advance w) = (cancelled w \<or> ev_fire (nextEvent w))"
  by (simp_all add: advance_def)

lemma nextEvent_fetches [simp]: "nextEvent (w\<lparr>fetches := x\<rparr>) = nextEvent w"
  by (simp add: nextEvent_def)

lemma nextEvent_execs [simp]: "nextEvent (w\<lparr>execs := x\<rparr>) = nextEvent w"
  by (simp add: nextEvent_def)

subsection \<open>The control-flow combinators\<close>

lemma attempt_None:
  "attempt m f k w = (None, w') \<longleftrightarrow> (\<exists>w1. m w = (None, w1) \<and> k w1 = (None, w'))"
  by (cases "m w") (auto simp: attempt_def split: option.splits)

lemma attempt_Some:
  "attempt m f k w = (Some e, w') \<longleftrightarrow>
     (\<exists>e0. m w = (Some e0, w') \<and> e = f e0) \<or> (\<exists>w1. m w = (None, w1) \<and> k w1 = (Some e, w'))"
  by (cases "m w") (auto simp: attempt_def split: option.splits)

lemma attempt_fail: "m w = (Some e, w') \<Longrightarrow> attempt m f k w = (Some (f e), w')"
  by (simp add: attempt_def)

lemma attempt_pass: "m w = (None, w') \<Longrightarrow> attempt m f k w = k w'"
  by (simp add: attempt_def)

lemma checkCtx_None: "checkCtx k w = (None, w') \<longleftrightarrow> \<not> cancelled w \<and> k w = (None, w')"
  by (simp add: checkCtx_def)

lemma succeed_None: "succeed w = (r, w') \<longleftrightarrow> r = None \<and> w' = w"
  by (auto simp: succeed_def)

lemma primitive_None:
  "primitive eff w = (None, w') \<longleftrightarrow>
     ev_err (nextEvent w) = None \<and> (\<exists>f. eff (fs w) = Inr f \<and> w' = (advance w)\<lparr>fs := f\<rparr>)"
  by (auto simp: primitive_def split: option.splits sum.splits)

lemma primitive_fields [simp]:
  "fetches (snd (primitive eff w)) = fetches w"
  "execs (snd (primitive eff w)) = execs w"
  "environ (snd (primitive eff w)) = environ w"
  "now (snd (primitive eff w)) = now w"
  by (simp_all add: primitive_def split: option.splits sum.splits)

subsection \<open>What an action leaves unchanged\<close>

lemma unchangedD: "unchanged g m \<Longrightarrow> g (snd (m w)) = g w"
  by (simp add: unchanged_def)

lemma unchanged_attempt: "unchanged g m \<Longrightarrow> unchanged g k \<Longrightarrow> unchanged g (attempt m f k)"
  unfolding unchanged_def attempt_def
  by (auto split: prod.splits option.splits) (metis snd_conv)+

lemma unchanged_checkCtx: "unchanged g k \<Longrightarrow> unchanged g (checkCtx k)"
  by (simp add: unchanged_def checkCtx_def)

lemma unchanged_succeed: "unchanged g succeed"
  by (simp add: unchanged_def succeed_def)

lemma unchanged_if:
  "(c \<Longrightarrow> unchanged g m) \<Longrightarrow> (\<not> c \<Longrightarrow> unchanged g k) \<Longrightarrow> unchanged g (if c then m else k)"
  by simp

lemma unchanged_fail: "unchanged g (\<lambda>w. (r, w))"
  by (simp add: unchanged_def)

lemma unchanged_primitive_execs: "unchanged execs (primitive eff)"
  by (simp add: unchanged_def)

lemma unchanged_primitive_environ: "unchanged environ (primitive eff)"
  by (simp add: unchanged_def)

lemma unchanged_primitive_fetches: "unchanged fetches (primitive eff)"
  by (simp add: unchanged_def)

lemma unchanged_primitive_fs:
  "(\<And>f f'. eff f = Inr f' \<Longrightarrow> f' q = f q) \<Longrightarrow> unchanged (\<lambda>w. fs w q) (primitive eff)"
  by (auto simp: unchanged_def primitive_def split: option.splits sum.splits)

lemma os_Stat_snd [simp]: "snd (os_Stat p w) = advance w"
  by (simp add: os_Stat_def split: option.splits)

lemma os_Stat_eq: "os_Stat p w = (fst (os_Stat p w), advance w)"
  by (simp add: prod_eq_iff)

subsection \<open>Components no primitive touches\<close>

lemma inert_execs: "inert execs"
  by (simp add: inert_def)

lemma inert_environ: "inert environ"
  by (simp add: inert_def)

lemma unchanged_primitive: "inert g \<Longrightarrow> unchanged g (primitive eff)"
  by (simp add: unchanged_def inert_def primitive_def split: option.splits sum.splits)

lemma unchanged_Download: "inert g \<Longrightarrow> unchanged g (astilectron_Download src dst)"
  by (simp add: unchanged_def inert_def astilectron_Download_def primitive_def
      split: option.splits sum.splits)

lemma provisionVendorZip_alt:
  "provisionVendorZip pDownload pCache pVendor w =
     attempt
       (if IsNotExist (fst (os_Stat pCache w)) then astilectron_Download pDownload pCache else succeed)
       (Wrap (''downloading '' @ pDownload @ '' into '' @ pCache @ '' failed''))
       (checkCtx
         (attempt (astios_Copy pCache pVendor)
            (Wrap (''copying '' @ pCache @ '' to '' @ pVendor @ '' failed''))
            (checkCtx succeed))) (advance w)"
proof -
  obtain st w1 where s: "os_Stat pCache w = (st, w1)" by fastforce
  then have "w1 = advance w" using os_Stat_snd [of pCache w] by simp
  then show ?thesis using s by (simp add: provisionVendorZip_def)
qed

lemma unchanged_provisionVendorZip:
  assumes "inert g"
  shows "unchanged g (provisionVendorZip pDownload pCache pVendor)"
proof -
  let ?k = "\<lambda>st. attempt
            (if IsNotExist st then astilectron_Download pDownload pCache else succeed)
            (Wrap (''downloading '' @ pDownload @ '' into '' @ pCache @ '' failed''))
            (checkCtx
              (attempt (astios_Copy pCache pVendor)
                 (Wrap (''copying '' @ pCache @ '' to '' @ pVendor @ '' failed''))
                 (checkCtx succeed)))"
  have k: "unchanged g (?k st)" for st
    unfolding astios_Copy_def
    by (intro unchanged_attempt unchanged_if unchanged_checkCtx unchanged_succeed
        unchanged_Download unchanged_primitive assms)
  have a: "g (advance w) = g w" for w using assms by (simp add: inert_def)
  show ?thesis
    unfolding unchanged_def provisionVendorZip_alt
    using unchangedD [OF k] a by simp
qed

lemma unchanged_provisionVendor:
  assumes "inert g"
  shows "unchanged g (provisionVendor L b oS arch)"
  unfolding provisionVendor_def provisionVendorAstilectron_def provisionVendorElectron_def
    Let_def os_RemoveAll_def os_MkdirAll_def astizip_Zip_def
  by (intro unchanged_attempt unchanged_if unchanged_checkCtx unchanged_succeed
      unchanged_provisionVendorZip unchanged_primitive assms)

lemma unchanged_BindData:
  assumes "inert g"
  shows "unchanged g (BindData L b oS arch tags)"
  unfolding BindData_def bindata_Translate_def
  by (intro unchanged_attempt unchanged_provisionVendor unchanged_primitive assms)

lemma unchanged_addWindowsSyso:
  assumes "inert g"
  shows "unchanged g (addWindowsSyso b arch)"
  unfolding addWindowsSyso_def rsrc_Embed_def
  by (intro unchanged_attempt unchanged_if unchanged_succeed unchanged_primitive assms)

lemma unchanged_finish:
  assumes "inert g"
  shows "unchanged g (finish b e)"
  unfolding finish_def finishDarwin_def finishLinux_def finishWindows_def Let_def
    os_MkdirAll_def astios_Move_def astios_Copy_def os_Chmod_def ioutil_WriteFile_def
  by (intro unchanged_attempt unchanged_if unchanged_checkCtx unchanged_succeed unchanged_fail
      unchanged_primitive assms)

lemma compile_execs:
  "execs (snd (compile b e w)) =
     (if lookPathErr (buildCmd b e w) = None then execs w @ [buildCmd b e w] else execs w)"
  by (simp add: compile_def cmd_CombinedOutput_def Let_def split: option.splits)

subsection \<open>Paths given by their elements\<close>

lemma below_Nil [simp]: "below d [] = d"
  by (simp add: below_def)

lemma below_snoc: "below d (cs @ [n]) = below d cs @ CHR ''/'' # n"
  by (simp add: below_def)

lemma below_Cons: "below d (c # cs) = below (d @ CHR ''/'' # c) cs"
  by (simp add: below_def)

lemma cleanAbs_below: "cleanAbs d \<Longrightarrow> list_all plainName cs \<Longrightarrow> cleanAbs (below d cs)"
  by (induction cs arbitrary: d) (simp_all add: below_Cons cleanAbs_snoc)

lemma Join_below:
  "cleanAbs d \<Longrightarrow> list_all plainName cs \<Longrightarrow> plainName n \<Longrightarrow>
   filepath_Join [below d cs, n] = below d (cs @ [n])"
  by (simp add: Join2 cleanAbs_below below_snoc)


lemma prefix_element:
  assumes "CHR ''/'' \<notin> set x" "CHR ''/'' \<notin> set y" "s = [] \<or> hd s = CHR ''/''"
  shows "prefix (x @ CHR ''/'' # r) (y @ s) \<longleftrightarrow> x = y \<and> prefix (CHR ''/'' # r) s"
  using assms
proof (induction x arbitrary: y)
  case Nil
  then show ?case by (cases y) auto
next
  case (Cons a x)
  show ?case
  proof (cases y)
    case Nil
    then show ?thesis using Cons.prems by (cases s) auto
  next
    case (Cons c y')
    then show ?thesis using Cons.prems Cons.IH [of y'] by auto
  qed
qed

lemma flat_head: "concat (map (\<lambda>c. CHR ''/'' # c) ys) = [] \<or> hd (concat (map (\<lambda>c. CHR ''/'' # c) ys)) = CHR ''/''"
  by (cases ys) auto

lemma prefix_flat:
  assumes "list_all (\<lambda>c. CHR ''/'' \<notin> set c) xs" "list_all (\<lambda>c. CHR ''/'' \<notin> set c) ys"
  shows "prefix (concat (map (\<lambda>c. CHR ''/'' # c) xs) @ ''/'') (concat (map (\<lambda>c. CHR ''/'' # c) ys))
         \<longleftrightarrow> strict_prefix xs ys"
  using assms
proof (induction xs arbitrary: ys)
  case Nil
  then show ?case by (cases ys) auto
next
  case (Cons x xs)
  show ?case
  proof (cases ys)
    case Nil
    then show ?thesis by simp
  next
    case (Cons y ys')
    obtain r where r: "concat (map (\<lambda>c. CHR ''/'' # c) xs) @ ''/'' = CHR ''/'' # r"
      by (cases xs) auto
    have ih: "prefix (CHR ''/'' # r) (concat (map (\<lambda>c. CHR ''/'' # c) ys')) \<longleftrightarrow> strict_prefix xs ys'"
      using Cons.prems Cons Cons.IH [of ys'] r by simp
    have "prefix (x @ CHR ''/'' # r) (y @ concat (map (\<lambda>c. CHR ''/'' # c) ys'))
          \<longleftrightarrow> x = y \<and> prefix (CHR ''/'' # r) (concat (map (\<lambda>c. CHR ''/'' # c) ys'))"
      using Cons.prems Cons by (intro prefix_element flat_head) simp_all
    then have "prefix (x @ concat (map (\<lambda>c. CHR ''/'' # c) xs) @ ''/'')
                 (y @ concat (map (\<lambda>c. CHR ''/'' # c) ys'))
          \<longleftrightarrow> x = y \<and> strict_prefix xs ys'"
      using ih r by simp
    then show ?thesis using Cons by (auto simp: strict_prefix_def)
  qed
qed

lemma element_inject:
  assumes "CHR ''/'' \<notin> set x" "CHR ''/'' \<notin> set y"
    "r = [] \<or> hd r = CHR ''/''" "s = [] \<or> hd s = CHR ''/''"
  shows "x @ r = y @ s \<longleftrightarrow> x = y \<and> r = s"
  using assms
proof (induction x arbitrary: y)
  case Nil
  then show ?case by (cases y; cases r) auto
next
  case (Cons a x)
  show ?case
  proof (cases y)
    case Nil
    then show ?thesis using Cons.prems by (cases s) auto
  next
    case (Cons c y')
    then show ?thesis using Cons.prems Cons.IH [of y'] by auto
  qed
qed

lemma flat_inject:
  assumes "list_all (\<lambda>c. CHR ''/'' \<notin> set c) xs" "list_all (\<lambda>c. CHR ''/'' \<notin> set c) ys"
  shows "concat (map (\<lambda>c. CHR ''/'' # c) xs) = concat (map (\<lambda>c. CHR ''/'' # c) ys) \<longleftrightarrow> xs = ys"
  using assms
proof (induction xs arbitrary: ys)
  case Nil
  then show ?case by (cases ys) auto
next
  case (Cons x xs)
  show ?case
  proof (cases ys)
    case Nil
    then show ?thesis by simp
  next
    case (Cons y ys')
    have "x @ concat (map (\<lambda>c. CHR ''/'' # c) xs) = y @ concat (map (\<lambda>c. CHR ''/'' # c) ys')
          \<longleftrightarrow> x = y \<and> concat (map (\<lambda>c. CHR ''/'' # c) xs) = concat (map (\<lambda>c. CHR ''/'' # c) ys')"
      using Cons.prems Cons by (intro element_inject flat_head) simp_all
    then show ?thesis using Cons Cons.prems Cons.IH [of ys'] by simp
  qed
qed

lemma below_last:
  assumes "d \<noteq> []" "last d \<noteq> CHR ''/''" "list_all plainName cs"
  shows "below d cs \<noteq> [] \<and> last (below d cs) \<noteq> CHR ''/''"
  using assms
proof (induction cs arbitrary: d)
  case Nil
  then show ?case by simp
next
  case (Cons c cs)
  have "c \<noteq> []" "CHR ''/'' \<notin> set c" using Cons.prems by (simp_all add: plainName_def)
  then have "last c \<noteq> CHR ''/''" using last_in_set by metis
  then have "d @ CHR ''/'' # c \<noteq> [] \<and> last (d @ CHR ''/'' # c) \<noteq> CHR ''/''"
    using \<open>c \<noteq> []\<close> by simp
  then show ?case using Cons.IH [of "d @ CHR ''/'' # c"] Cons.prems by (simp add: below_Cons)
qed

lemma under_below:
  assumes "d \<noteq> []" "last d \<noteq> CHR ''/''" "list_all plainName xs" "list_all plainName ys"
  shows "under (below d xs) (below d ys) \<longleftrightarrow> prefix xs ys"
proof -
  have dp: "dirPrefix (below d xs) = below d xs @ ''/''"
    using below_last [OF assms(1,2,3)] by (simp add: dirPrefix_def)
  have sx: "list_all (\<lambda>c. CHR ''/'' \<notin> set c) xs" and sy: "list_all (\<lambda>c. CHR ''/'' \<notin> set c) ys"
    using assms(3,4) by (simp_all add: plain_no_slash)
  have "under (below d xs) (below d ys)
        \<longleftrightarrow> ys = xs \<or> strict_prefix xs ys"
    unfolding under_def dp
    using prefix_flat [OF sx sy] flat_inject [OF sy sx] by (simp add: below_def)
  then show ?thesis by (auto simp: strict_prefix_def)
qed


lemma under_below_cleanAbs:
  "cleanAbs d \<Longrightarrow> list_all plainName xs \<Longrightarrow> list_all plainName ys \<Longrightarrow>
   under (below d xs) (below d ys) \<longleftrightarrow> prefix xs ys"
  using under_below cleanAbs_nonempty cleanAbs_last by blast

subsection \<open>Separate trees\<close>

lemma under_comparable:
  assumes "under a y" "under b y"
  shows "under a b \<or> under b a"
proof (cases "y = a \<or> y = b")
  case True
  then show ?thesis using assms by auto
next
  case False
  then have pa: "prefix (dirPrefix a) y" and pb: "prefix (dirPrefix b) y"
    using assms by (auto simp: under_def)
  then consider "prefix (dirPrefix a) (dirPrefix b)" | "prefix (dirPrefix b) (dirPrefix a)"
    using prefix_same_cases by blast
  then show ?thesis
  proof cases
    case 1
    then show ?thesis
      by (auto simp: under_def dirPrefix_def prefix_snoc split: if_splits)
  next
    case 2
    then show ?thesis
      by (auto simp: under_def dirPrefix_def prefix_snoc split: if_splits)
  qed
qed

lemma apart_sym: "apart a b \<Longrightarrow> apart b a"
  by (simp add: apart_def)

lemma apart_sub: "apart a c \<Longrightarrow> under a x \<Longrightarrow> apart x c"
  unfolding apart_def using under_trans under_comparable by blast


lemma apart_neq: "apart a b \<Longrightarrow> a \<noteq> b"
  by (auto simp: apart_def under_def)

subsection \<open>The effect of the primitives on the filesystem\<close>



lemma mkdirs_frame: "\<not> under q p \<Longrightarrow> mkdirs f p q = f q"
  using ancestors_under by (auto simp: mkdirs_def under_refl)

lemma removeTree_under: "under p q \<Longrightarrow> removeTree f p q = None"
  by (simp add: removeTree_def)

lemma removeTree_frame: "\<not> under p q \<Longrightarrow> removeTree f p q = f q"
  by (simp add: removeTree_def)


lemma copyTree_frame: "\<not> under dst q \<Longrightarrow> copyTree f src dst q = f q"
  by (auto simp: copyTree_def under_def)



lemma moveTree_frame: "\<not> under dst q \<Longrightarrow> \<not> under src q \<Longrightarrow> moveTree f src dst q = f q"
  by (auto simp: moveTree_def under_def)

lemma os_RemoveAll_None:
  "os_RemoveAll p w = (None, w') \<Longrightarrow> fs w' = removeTree (fs w) p"
  by (auto simp: os_RemoveAll_def primitive_None)

lemma os_MkdirAll_None:
  "os_MkdirAll p w = (None, w') \<Longrightarrow> fs w' = mkdirs (fs w) p \<and> \<not> isFile (fs w p)"
  by (auto simp: os_MkdirAll_def primitive_None split: if_splits)


lemma astios_Copy_None:
  "astios_Copy src dst w = (None, w') \<Longrightarrow> fs w src \<noteq> None \<and> fs w' = copyTree (fs w) src dst"
  by (auto simp: astios_Copy_def primitive_None split: option.splits)



subsection \<open>The paths of a darwin bundle\<close>








subsection \<open>The run of \<open>finishDarwin\<close>\<close>




subsection \<open>Evaluating the example\<close>

lemmas eval_paths = filepath_Join_def filepath_Clean_def cleanStep_def filepath_Ext_def Let_def

lemmas eval_prims = primitive_def nextEvent_def advance_def os_MkdirAll_def os_RemoveAll_def
  astios_Move_def astios_Copy_def os_Chmod_def ioutil_WriteFile_def astilectron_Download_def
  astizip_Zip_def bindata_Translate_def rsrc_Embed_def os_Stat_def IsNotExist_def
  attempt_def checkCtx_def succeed_def

lemmas eval_fs = mkdirs_def removeTree_def copyTree_def moveTree_def relocate_def under_def
  dirPrefix_def ancestors_def isFile_def apart_def







lemmas eval_demo = demoLib_def demoBundler_def demoWorld_def demoWorldCached_def okEvent_def
  fireEvent_def failEvent_def

lemmas eval_provision = provisionVendor_def provisionVendorAstilectron_def
  provisionVendorElectron_def provisionVendorZip_def cacheAstilectron_def cacheElectron_def

subsection \<open>Successful runs of vendor provisioning\<close>

lemma os_Stat_NotExist: "IsNotExist (fst (os_Stat p w)) \<Longrightarrow> fs w p = None"
  by (auto simp: os_Stat_def IsNotExist_def split: option.splits)

lemma astilectron_Download_None:
  "astilectron_Download src dst w = (None, w') \<Longrightarrow>
   fs w' = (fs w)(dst \<mapsto> File (Remote src) 420) \<and> fetches w' = fetches w @ [(src, dst)]"
  by (auto simp: astilectron_Download_def primitive_None split: if_splits prod.splits option.splits)

lemma primitive_None_fetches: "primitive eff w = (None, w') \<Longrightarrow> fetches w' = fetches w"
  by (auto simp: primitive_None)

lemma provisionVendorZip_None:
  assumes "provisionVendorZip pDownload pCache pVendor w = (None, w')"
  shows "\<exists>g. ((g = fs w \<and> fetches w' = fetches w)
            \<or> (fs w pCache = None \<and> g = (fs w)(pCache \<mapsto> File (Remote pDownload) 420)
                \<and> fetches w' = fetches w @ [(pDownload, pCache)]))
           \<and> g pCache \<noteq> None \<and> fs w' = copyTree g pCache pVendor \<and> \<not> cancelled w'"
proof -
  from assms obtain w1 w2 where
    d: "(if IsNotExist (fst (os_Stat pCache w)) then astilectron_Download pDownload pCache else succeed)
          (advance w) = (None, w1)"
    and c: "astios_Copy pCache pVendor w1 = (None, w2)"
    and n: "\<not> cancelled w2" and e: "w' = w2"
    unfolding provisionVendorZip_alt attempt_None checkCtx_None succeed_None by blast
  have cp: "fs w1 pCache \<noteq> None" "fs w2 = copyTree (fs w1) pCache pVendor"
    using astios_Copy_None [OF c] by simp_all
  have cf: "fetches w2 = fetches w1"
    using c by (simp add: astios_Copy_def primitive_None_fetches)
  show ?thesis
  proof (cases "IsNotExist (fst (os_Stat pCache w))")
    case True
    then have dl: "astilectron_Download pDownload pCache (advance w) = (None, w1)" using d by simp
    have "fs w pCache = None" using True by (rule os_Stat_NotExist)
    moreover have "fs w1 = (fs w)(pCache \<mapsto> File (Remote pDownload) 420)"
      "fetches w1 = fetches w @ [(pDownload, pCache)]"
      using astilectron_Download_None [OF dl] by simp_all
    ultimately show ?thesis using cp cf n e by auto
  next
    case False
    then have "w1 = advance w" using d by (simp add: succeed_def)
    then have "fs w1 = fs w" "fetches w1 = fetches w" by simp_all
    then show ?thesis using cp cf n e by auto
  qed
qed

lemma provisionVendor_steps:
  assumes run: "provisionVendor L b oS arch w = (None, w')"
  obtains w2 w3 where
    "fs w2 = mkdirs (removeTree (fs w) (pathVendor b)) (pathVendor b)
     \<or> (pathAstilectron b \<noteq> []
        \<and> fs w2 = (mkdirs (removeTree (fs w) (pathVendor b)) (pathVendor b))
             (cacheAstilectron L b \<mapsto>
                File (Produced ''zip'' [pathAstilectron b, ''astilectron-'' @ VersionAstilectron L]) 420))"
    "fetches w2 = fetches w"
    "provisionVendorZip (AstilectronDownloadSrc L) (cacheAstilectron L b) (vendorAstilectron L b) w2
       = (None, w3)"
    "provisionVendorZip (ElectronDownloadSrc L oS arch) (cacheElectron L b oS arch) (vendorElectron L b) w3
       = (None, w')"
proof -
  from run obtain w0 w1 w3 where
    r: "os_RemoveAll (pathVendor b) w = (None, w0)"
    and m: "os_MkdirAll (pathVendor b) w0 = (None, w1)"
    and a: "provisionVendorAstilectron L b w1 = (None, w3)"
    and e: "provisionVendorElectron L b oS arch w3 = (None, w')"
    unfolding provisionVendor_def attempt_None succeed_None by blast
  have f1: "fs w1 = mkdirs (removeTree (fs w) (pathVendor b)) (pathVendor b)"
    using os_RemoveAll_None [OF r] os_MkdirAll_None [OF m] by simp
  have h1: "fetches w1 = fetches w"
    using r m by (simp add: os_RemoveAll_def os_MkdirAll_def primitive_None_fetches)
  have e': "provisionVendorZip (ElectronDownloadSrc L oS arch) (cacheElectron L b oS arch)
      (vendorElectron L b) w3 = (None, w')"
    using e by (simp add: provisionVendorElectron_def vendorElectron_def)
  show ?thesis
  proof (cases "length (pathAstilectron b) > 0")
    case False
    then have "provisionVendorZip (AstilectronDownloadSrc L) (cacheAstilectron L b)
        (vendorAstilectron L b) w1 = (None, w3)"
      using a by (simp add: provisionVendorAstilectron_def vendorAstilectron_def Let_def)
    then show ?thesis using that f1 h1 e' by blast
  next
    case True
    then obtain w2 where
      z: "astizip_Zip (pathAstilectron b) (cacheAstilectron L b) (''astilectron-'' @ VersionAstilectron L) w1
            = (None, w2)"
      and p: "provisionVendorZip (AstilectronDownloadSrc L) (cacheAstilectron L b)
        (vendorAstilectron L b) w2 = (None, w3)"
      using a
      by (auto simp: provisionVendorAstilectron_def vendorAstilectron_def Let_def attempt_None checkCtx_None)
    have "fs w2 = (fs w1)(cacheAstilectron L b \<mapsto>
                File (Produced ''zip'' [pathAstilectron b, ''astilectron-'' @ VersionAstilectron L]) 420)"
      "fetches w2 = fetches w1"
      using z by (auto simp: astizip_Zip_def primitive_None)
    then show ?thesis using that [of w2 w3] f1 h1 p e' True by auto
  qed
qed

lemma vendor_paths:
  assumes "cleanAbs (pathVendor b)" "plainName (zipNameAstilectron L)" "plainName (zipNameElectron L)"
  shows "vendorAstilectron L b = below (pathVendor b) [zipNameAstilectron L]"
    and "vendorElectron L b = below (pathVendor b) [zipNameElectron L]"
  using Join_below [OF assms(1), of "[]"] assms(2,3)
  by (simp_all add: vendorAstilectron_def vendorElectron_def)

lemma relocate_under: "under src (relocate src dst q)"
  by (simp add: relocate_def under_def)


lemma provisionVendor_shape:
  assumes run: "provisionVendor L b oS arch w = (None, w')"
    and noov: "pathAstilectron b = []"
    and cl: "cleanAbs (pathVendor b)"
    and names: "plainName (zipNameAstilectron L)" "plainName (zipNameElectron L)"
      "zipNameAstilectron L \<noteq> zipNameElectron L"
    and cache: "apart (pathVendor b) (cacheAstilectron L b)"
      "apart (pathVendor b) (cacheElectron L b oS arch)"
      "apart (cacheAstilectron L b) (cacheElectron L b oS arch)"
  shows "(\<forall>q. under (pathVendor b) q \<longrightarrow>
            fs w' q =
              (if q = vendorElectron L b then fs w' (cacheElectron L b oS arch)
               else if prefix (dirPrefix (vendorElectron L b)) q
                     \<and> fs w' (relocate (cacheElectron L b oS arch) (vendorElectron L b) q) \<noteq> None
               then fs w' (relocate (cacheElectron L b oS arch) (vendorElectron L b) q)
               else if q = vendorAstilectron L b then fs w' (cacheAstilectron L b)
               else if prefix (dirPrefix (vendorAstilectron L b)) q
                     \<and> fs w' (relocate (cacheAstilectron L b) (vendorAstilectron L b) q) \<noteq> None
               then fs w' (relocate (cacheAstilectron L b) (vendorAstilectron L b) q)
               else if q = pathVendor b then Some Dir else None))
       \<and> (\<forall>r. under (cacheAstilectron L b) r \<longrightarrow>
            fs w' r = (if r = cacheAstilectron L b \<and> fs w r = None
                       then Some (File (Remote (AstilectronDownloadSrc L)) 420) else fs w r))
       \<and> (\<forall>r. under (cacheElectron L b oS arch) r \<longrightarrow>
            fs w' r = (if r = cacheElectron L b oS arch \<and> fs w r = None
                       then Some (File (Remote (ElectronDownloadSrc L oS arch)) 420) else fs w r))
       \<and> fetches w' = fetches w
            @ (if fs w (cacheAstilectron L b) = None
               then [(AstilectronDownloadSrc L, cacheAstilectron L b)] else [])
            @ (if fs w (cacheElectron L b oS arch) = None
               then [(ElectronDownloadSrc L oS arch, cacheElectron L b oS arch)] else [])"
proof -
  define V where "V = pathVendor b"
  define pA where "pA = cacheAstilectron L b"
  define pE where "pE = cacheElectron L b oS arch"
  define vA where "vA = vendorAstilectron L b"
  define vE where "vE = vendorElectron L b"
  define sA where "sA = AstilectronDownloadSrc L"
  define sE where "sE = ElectronDownloadSrc L oS arch"
  have vp: "vA = below V [zipNameAstilectron L]" "vE = below V [zipNameElectron L]"
    using vendor_paths [OF cl names(1,2)] by (simp_all add: vA_def vE_def V_def)
  have clV: "cleanAbs V" using cl by (simp add: V_def)
  note U = under_below_cleanAbs [OF clV]
  have uV: "under V vA" "under V vE"
    using U [of "[]" "[zipNameAstilectron L]"] U [of "[]" "[zipNameElectron L]"] names
    by (simp_all add: vp)
  have nV: "\<not> under vA V" "\<not> under vE V"
    using U [of "[zipNameAstilectron L]" "[]"] U [of "[zipNameElectron L]" "[]"] names
    by (simp_all add: vp)
  have apv: "apart vA vE"
    using U [of "[zipNameAstilectron L]" "[zipNameElectron L]"]
      U [of "[zipNameElectron L]" "[zipNameAstilectron L]"] names
    by (auto simp: vp apart_def)
  have apA: "apart V pA" and apE: "apart V pE" and apc: "apart pA pE"
    using cache by (simp_all add: V_def pA_def pE_def)
  have ap: "apart vA pA" "apart vA pE" "apart vE pA" "apart vE pE"
    using apart_sub [OF apA uV(1)] apart_sub [OF apE uV(1)] apart_sub [OF apA uV(2)]
      apart_sub [OF apE uV(2)] by simp_all
  have outA: "\<not> under V r \<and> \<not> under r V \<and> \<not> under vA r \<and> \<not> under vE r \<and> r \<noteq> pE" if "under pA r" for r
    using that apart_sub [OF apart_sym [OF apA] that] apart_sub [OF apart_sym [OF ap(1)] that]
      apart_sub [OF apart_sym [OF ap(3)] that] apart_sub [OF apc that]
    by (auto simp: apart_def under_refl)
  have outE: "\<not> under V r \<and> \<not> under r V \<and> \<not> under vA r \<and> \<not> under vE r \<and> r \<noteq> pA" if "under pE r" for r
    using that apart_sub [OF apart_sym [OF apE] that] apart_sub [OF apart_sym [OF ap(2)] that]
      apart_sub [OF apart_sym [OF ap(4)] that] apart_sub [OF apart_sym [OF apc] that]
    by (auto simp: apart_def under_refl)

  from run obtain w2 w3 where
    s2: "fs w2 = mkdirs (removeTree (fs w) V) V"
    and h2: "fetches w2 = fetches w"
    and zA: "provisionVendorZip sA pA vA w2 = (None, w3)"
    and zE: "provisionVendorZip sE pE vE w3 = (None, w')"
    unfolding V_def pA_def pE_def vA_def vE_def sA_def sE_def
    using noov provisionVendor_steps [of L b oS arch w w'] by metis
  from provisionVendorZip_None [OF zA] obtain gA where
    gA: "(gA = fs w2 \<and> fetches w3 = fetches w2)
         \<or> (fs w2 pA = None \<and> gA = (fs w2)(pA \<mapsto> File (Remote sA) 420)
             \<and> fetches w3 = fetches w2 @ [(sA, pA)])"
    and gA_ne: "gA pA \<noteq> None" and f3: "fs w3 = copyTree gA pA vA"
    by blast
  from provisionVendorZip_None [OF zE] obtain gE where
    gE: "(gE = fs w3 \<and> fetches w' = fetches w3)
         \<or> (fs w3 pE = None \<and> gE = (fs w3)(pE \<mapsto> File (Remote sE) 420)
             \<and> fetches w' = fetches w3 @ [(sE, pE)])"
    and gE_ne: "gE pE \<noteq> None" and f4: "fs w' = copyTree gE pE vE"
    by blast

  have w2_out: "fs w2 r = fs w r" if "\<not> under V r" "\<not> under r V" for r
    using that by (simp add: s2 mkdirs_frame removeTree_frame)
  have w2_in: "fs w2 q = (if q = V then Some Dir else None)" if "under V q" for q
    using that ancestors_under [of q V] under_antisym [of q V]
    by (auto simp: s2 mkdirs_def removeTree_def under_refl)
  have w2A: "fs w2 pA = fs w pA" using w2_out [of pA] outA [of pA] by (simp add: under_refl)
  have gA_eq: "gA = (if fs w pA = None then (fs w2)(pA \<mapsto> File (Remote sA) 420) else fs w2)"
    and h3: "fetches w3 = fetches w @ (if fs w pA = None then [(sA, pA)] else [])"
    using gA gA_ne w2A h2 by auto
  have w3E: "fs w3 pE = fs w pE"
  proof -
    have "fs w3 pE = gA pE" using outE [of pE] by (simp add: f3 copyTree_frame under_refl)
    also have "\<dots> = fs w2 pE" using outE [of pE] by (simp add: gA_eq under_refl)
    finally show ?thesis using w2_out [of pE] outE [of pE] by (simp add: under_refl)
  qed
  have gE_eq: "gE = (if fs w pE = None then (fs w3)(pE \<mapsto> File (Remote sE) 420) else fs w3)"
    and h4: "fetches w' = fetches w3 @ (if fs w pE = None then [(sE, pE)] else [])"
    using gE gE_ne w3E by auto

  have finA: "fs w' r = gA r" if "under pA r" for r
  proof -
    have "fs w' r = gE r" using outA [OF that] by (simp add: f4 copyTree_frame)
    also have "\<dots> = fs w3 r" using outA [OF that] by (simp add: gE_eq)
    finally show ?thesis using outA [OF that] by (simp add: f3 copyTree_frame)
  qed
  have finE: "fs w' r = gE r" if "under pE r" for r
    using outE [OF that] by (simp add: f4 copyTree_frame)
  have sA': "fs w' r = (if r = pA \<and> fs w r = None then Some (File (Remote sA) 420) else fs w r)"
    if "under pA r" for r
    using finA [OF that] outA [OF that] w2_out [of r] gA_ne w2A by (auto simp: gA_eq)
  have sE': "fs w' r = (if r = pE \<and> fs w r = None then Some (File (Remote sE) 420) else fs w r)"
    if "under pE r" for r
  proof -
    have "fs w3 r = gA r" using outE [OF that] by (simp add: f3 copyTree_frame)
    also have "\<dots> = fs w2 r" using outE [OF that] by (simp add: gA_eq)
    also have "\<dots> = fs w r" using w2_out [of r] outE [OF that] by simp
    finally show ?thesis using finE [OF that] gE_ne w3E by (auto simp: gE_eq)
  qed
  have gA_in: "gA q = (if q = V then Some Dir else None)" if "under V q" for q
  proof -
    have "q \<noteq> pA" using that outA [of pA] by (auto simp: under_refl)
    then show ?thesis using w2_in [OF that] by (auto simp: gA_eq)
  qed
  have gE_in: "gE q = fs w3 q" if "under V q" for q
  proof -
    have "q \<noteq> pE" using that outE [of pE] by (auto simp: under_refl)
    then show ?thesis by (simp add: gE_eq)
  qed
  have shape: "fs w' q =
              (if q = vE then fs w' pE
               else if prefix (dirPrefix vE) q \<and> fs w' (relocate pE vE q) \<noteq> None
               then fs w' (relocate pE vE q)
               else if q = vA then fs w' pA
               else if prefix (dirPrefix vA) q \<and> fs w' (relocate pA vA q) \<noteq> None
               then fs w' (relocate pA vA q)
               else if q = V then Some Dir else None)"
    if uq: "under V q" for q
  proof -
    have rE: "fs w' (relocate pE vE q) = gE (relocate pE vE q)" by (rule finE [OF relocate_under])
    have rA: "fs w' (relocate pA vA q) = gA (relocate pA vA q)" by (rule finA [OF relocate_under])
    have eA: "fs w' pA = gA pA" by (rule finA [OF under_refl])
    have eE: "fs w' pE = gE pE" by (rule finE [OF under_refl])
    have a: "fs w' q = (if q = vE then gE pE
          else if prefix (dirPrefix vE) q \<and> gE (relocate pE vE q) \<noteq> None then gE (relocate pE vE q)
          else fs w3 q)"
      using gE_in [OF uq] by (auto simp: f4 copyTree_def)
    have b: "fs w3 q = (if q = vA then gA pA
          else if prefix (dirPrefix vA) q \<and> gA (relocate pA vA q) \<noteq> None then gA (relocate pA vA q)
          else if q = V then Some Dir else None)"
      using gA_in [OF uq] by (auto simp: f3 copyTree_def)
    show ?thesis unfolding rE rA eA eE by (subst a, subst b, rule refl)
  qed
  have fe: "fetches w' = fetches w @ (if fs w pA = None then [(sA, pA)] else [])
      @ (if fs w pE = None then [(sE, pE)] else [])"
    by (simp add: h4 h3)
  show ?thesis
    unfolding V_def [symmetric] pA_def [symmetric] pE_def [symmetric] vA_def [symmetric]
      vE_def [symmetric] sA_def [symmetric] sE_def [symmetric]
    using shape sA' sE' fe by blast
qed

lemma demo_layout:
  "cleanAbs (pathVendor demoBundler)"
  "plainName (zipNameAstilectron demoLib)" "plainName (zipNameElectron demoLib)"
  "zipNameAstilectron demoLib \<noteq> zipNameElectron demoLib"
  "cacheAstilectron demoLib demoBundler = ''/cache/astilectron-0.6.0.zip''"
  "cacheElectron demoLib demoBundler ''linux'' ''amd64'' = ''/cache/electron-linux-amd64-1.6.5.zip''"
  "vendorAstilectron demoLib demoBundler = ''/src/demo/vendor/astilectron.zip''"
  "vendorElectron demoLib demoBundler = ''/src/demo/vendor/electron.zip''"
  "pathVendor demoBundler = ''/src/demo/vendor''"
  "pathAstilectron demoBundler = []"
proof -
  show "cleanAbs (pathVendor demoBundler)"
    unfolding cleanAbs_def
    by (rule exI [of _ "[''src'', ''demo'', ''vendor'']"]) (simp add: plainName_def demoBundler_def)
qed (simp_all add: eval_demo eval_paths plainName_def cacheAstilectron_def cacheElectron_def
    vendorAstilectron_def vendorElectron_def)

lemma demo_apart:
  "apart ''/src/demo/vendor'' ''/cache/astilectron-0.6.0.zip''"
  "apart ''/src/demo/vendor'' ''/cache/electron-linux-amd64-1.6.5.zip''"
  "apart ''/cache/astilectron-0.6.0.zip'' ''/cache/electron-linux-amd64-1.6.5.zip''"
  by (simp_all add: eval_fs)


lemma provisionVendor_first:
  "fst (provisionVendor demoLib demoBundler ''linux'' ''amd64'' (demoWorld [])) = None"
  "fs (demoWorld []) ''/cache/astilectron-0.6.0.zip'' = None"
  "fs (demoWorld []) ''/cache/electron-linux-amd64-1.6.5.zip'' = None"
  "fetches (demoWorld []) = []"
  by (simp_all add: eval_provision eval_demo eval_paths eval_prims eval_fs)

lemma provisionVendor_second:
  "fst (provisionVendor demoLib demoBundler ''linux'' ''amd64'' demoProvisioned) = None"
  by (simp add: demoProvisioned_def eval_provision eval_demo eval_paths eval_prims eval_fs)

subsection \<open>What a build leaves alone\<close>

lemma frame_RemoveAll: "apart q p \<Longrightarrow> unchanged (\<lambda>w. fs w q) (os_RemoveAll p)"
  unfolding os_RemoveAll_def
  by (rule unchanged_primitive_fs) (auto simp: removeTree_frame apart_def)

lemma frame_MkdirAll: "apart q p \<Longrightarrow> unchanged (\<lambda>w. fs w q) (os_MkdirAll p)"
  unfolding os_MkdirAll_def
  by (rule unchanged_primitive_fs) (auto simp: mkdirs_frame apart_def split: if_splits)

lemma frame_Chmod: "apart q p \<Longrightarrow> unchanged (\<lambda>w. fs w q) (os_Chmod p mode)"
  unfolding os_Chmod_def
  by (rule unchanged_primitive_fs) (auto dest: apart_neq split: option.splits node.splits)

lemma frame_WriteFile: "apart q p \<Longrightarrow> unchanged (\<lambda>w. fs w q) (ioutil_WriteFile p bytes perm)"
  unfolding ioutil_WriteFile_def
  by (rule unchanged_primitive_fs) (auto dest: apart_neq split: option.splits node.splits)

lemma frame_Translate:
  "apart q (Config_Output c) \<Longrightarrow> unchanged (\<lambda>w. fs w q) (bindata_Translate c)"
  unfolding bindata_Translate_def
  by (rule unchanged_primitive_fs) (auto dest: apart_neq)

lemma frame_Embed: "apart q p \<Longrightarrow> unchanged (\<lambda>w. fs w q) (rsrc_Embed p arch manifest ico)"
  unfolding rsrc_Embed_def
  by (rule unchanged_primitive_fs) (auto dest: apart_neq)

lemma frame_Zip: "apart q p \<Longrightarrow> unchanged (\<lambda>w. fs w q) (astizip_Zip src p pre)"
  unfolding astizip_Zip_def
  by (rule unchanged_primitive_fs) (auto dest: apart_neq)

lemma frame_Copy: "apart q dst \<Longrightarrow> unchanged (\<lambda>w. fs w q) (astios_Copy src dst)"
  unfolding astios_Copy_def
  by (rule unchanged_primitive_fs) (auto simp: copyTree_frame apart_def split: option.splits)

lemma frame_Move:
  "apart q dst \<Longrightarrow> apart q src \<Longrightarrow> unchanged (\<lambda>w. fs w q) (astios_Move src dst)"
  unfolding astios_Move_def
  by (rule unchanged_primitive_fs) (auto simp: moveTree_frame apart_def split: option.splits if_splits)

lemma frame_Download: "apart q dst \<Longrightarrow> unchanged (\<lambda>w. fs w q) (astilectron_Download src dst)"
  by (auto simp: unchanged_def astilectron_Download_def primitive_def dest: apart_neq
      split: option.splits sum.splits)

lemma frame_provisionVendorZip:
  assumes "apart q pCache" "apart q pVendor"
  shows "unchanged (\<lambda>w. fs w q) (provisionVendorZip pDownload pCache pVendor)"
proof -
  let ?k = "\<lambda>st. attempt
            (if IsNotExist st then astilectron_Download pDownload pCache else succeed)
            (Wrap (''downloading '' @ pDownload @ '' into '' @ pCache @ '' failed''))
            (checkCtx
              (attempt (astios_Copy pCache pVendor)
                 (Wrap (''copying '' @ pCache @ '' to '' @ pVendor @ '' failed''))
                 (checkCtx succeed)))"
  have k: "unchanged (\<lambda>w. fs w q) (?k st)" for st
    by (intro unchanged_attempt unchanged_if unchanged_checkCtx unchanged_succeed
        frame_Download frame_Copy assms)
  show ?thesis
    unfolding unchanged_def provisionVendorZip_alt
    using unchangedD [OF k] by simp
qed

lemma ldflags_not_o: "ldflags_string (buildLdflags b e w) \<noteq> ''-o''"
  by (simp add: ldflags_string_def buildLdflags_def)

lemma buildCmd_output: "argAfter ''-o'' (tl (Args (buildCmd b e w))) = Some (binaryPathOf b e)"
  using ldflags_not_o [of b e w]
  by (simp add: buildCmd_def exec_Command_def Let_def split: sum.splits)

lemma frame_compile:
  assumes "apart q (binaryPathOf b e)"
  shows "unchanged (\<lambda>w. fs w q) (compile b e)"
  using apart_neq [OF assms]
  by (auto simp: unchanged_def compile_def cmd_CombinedOutput_def Let_def buildCmd_output
      split: option.splits)

lemma frame_bundleEnv:
  assumes "\<forall>p \<in> set (footprint L b e). apart q p"
  shows "unchanged (\<lambda>w. fs w q) (bundleEnv L b e)"
proof -
  have a: "apart q (environmentPath b e)" "apart q (binaryPathOf b e)"
    "apart q (pathVendor b)" "apart q (vendorAstilectron L b)" "apart q (vendorElectron L b)"
    "apart q (cacheAstilectron L b)" "apart q (cacheElectron L b (OS e) (Arch e))"
    "apart q (Config_Output (bindConfig b (OS e)))" "apart q (sysoPath b)"
    "apart q (macOSPath b (environmentPath b e))" "apart q (macOSBinaryPath b (environmentPath b e))"
    "apart q (resourcesPath b (environmentPath b e))" "apart q (iconPath b (environmentPath b e))"
    "apart q (plistPath b (environmentPath b e))"
    "apart q (filepath_Join [environmentPath b e, appName b])"
    "apart q (filepath_Join [environmentPath b e, appName b @ ''.exe''])"
    using assms by (simp_all add: footprint_def)
  have pv: "unchanged (\<lambda>w. fs w q) (provisionVendor L b (OS e) (Arch e))"
    unfolding provisionVendor_def provisionVendorAstilectron_def provisionVendorElectron_def Let_def
    by (intro unchanged_attempt unchanged_if unchanged_checkCtx unchanged_succeed
        frame_RemoveAll frame_MkdirAll frame_Zip frame_provisionVendorZip
        a [unfolded vendorAstilectron_def vendorElectron_def])
  have bd: "unchanged (\<lambda>w. fs w q) (BindData L b (OS e) (Arch e) (Tags e))"
    unfolding BindData_def by (intro unchanged_attempt pv frame_Translate a)
  have sy: "unchanged (\<lambda>w. fs w q) (addWindowsSyso b (Arch e))"
    unfolding addWindowsSyso_def
    by (intro unchanged_attempt unchanged_if unchanged_succeed frame_Embed a)
  have fi: "unchanged (\<lambda>w. fs w q) (finish b e)"
    unfolding finish_def finishDarwin_def finishLinux_def finishWindows_def Let_def
    by (intro unchanged_attempt unchanged_if unchanged_checkCtx unchanged_succeed unchanged_fail
        frame_MkdirAll frame_Move frame_Chmod frame_Copy frame_WriteFile a)
  show ?thesis
    unfolding bundleEnv_def
    by (intro unchanged_attempt unchanged_if unchanged_succeed frame_RemoveAll frame_MkdirAll
        bd sy fi frame_compile a)
qed

lemma bundleEach_selected:
  "selected L b e \<Longrightarrow>
   bundleEach L b (e # es) =
     attempt (bundleEnv L b e)
       (Wrap (''bundling for environment '' @ OS e @ ''/'' @ Arch e @ '' failed''))
       (bundleEach L b es)"
  by (auto simp: selected_def Let_def)

lemma frame_bundleEach:
  assumes "\<forall>x \<in> set es. selected L b x \<longrightarrow> (\<forall>p \<in> set (footprint L b x). apart q p)"
  shows "unchanged (\<lambda>w. fs w q) (bundleEach L b es)"
  using assms
proof (induction es)
  case Nil
  then show ?case by (simp add: unchanged_succeed)
next
  case (Cons x es)
  have rest: "unchanged (\<lambda>w. fs w q) (bundleEach L b es)" using Cons by simp
  show ?case
  proof (cases "selected L b x")
    case True
    then have "unchanged (\<lambda>w. fs w q) (bundleEnv L b x)" using Cons.prems frame_bundleEnv by simp
    then show ?thesis
      unfolding bundleEach_selected [OF True] by (intro unchanged_attempt rest)
  next
    case False
    then have ne: "environmentFilter b \<noteq> []" and nm: "MatchString L (environmentFilter b) (eName x) \<noteq> Inr True"
      by (simp_all add: selected_def)
    show ?thesis
    proof (cases "MatchString L (environmentFilter b) (eName x)")
      case (Inl err)
      then show ?thesis using ne by (simp add: unchanged_fail)
    next
      case (Inr m)
      then have "\<not> m" using nm by simp
      then show ?thesis using ne Inr rest by simp
    qed
  qed
qed

lemma bundleEach_append:
  "bundleEach L b (xs @ ys) w =
     (case bundleEach L b xs w of
        (None, w1) \<Rightarrow> bundleEach L b ys w1
      | (Some err, w1) \<Rightarrow> (Some err, w1))"
proof (induction xs arbitrary: w)
  case Nil
  then show ?case by (simp add: succeed_def)
next
  case (Cons x xs)
  have step: "attempt m f (bundleEach L b (xs @ ys)) w =
     (case attempt m f (bundleEach L b xs) w of
        (None, w1) \<Rightarrow> bundleEach L b ys w1
      | (Some err, w1) \<Rightarrow> (Some err, w1))" for m f
    using Cons.IH by (cases "m w") (auto simp: attempt_def split: option.splits)
  show ?case
    using Cons.IH step by (auto simp: Let_def split: sum.splits)
qed

subsection \<open>A run over two environments\<close>

lemmas eval_bundle = Bundle_def reset_def bundleEnv_def BindData_def bindConfig_def
  addWindowsSyso_def compile_def cmd_CombinedOutput_def buildCmd_def buildLdflags_def
  ldflags_string_def binaryPathOf_def finish_def finishLinux_def finishWindows_def
  environmentPath_def replaceSpaces_def sysoPath_def macOSPath_def macOSBinaryPath_def
  contentsPath_def resourcesPath_def iconPath_def plistPath_def demoTwo_def demoEnvTags_def
  demoEnvWindows_def demoScript_def exec_Command_def exec_LookPath_def filepath_SplitList_def
  executable_def filepath_Base_def

lemma demoTwo_reset: "fst (reset demoTwo (demoWorld demoScript)) = None"
  by (simp add: eval_bundle eval_demo eval_paths eval_prims eval_fs)

lemma demoTwo_linux:
  "fst (bundleEnv demoLib demoTwo demoEnvTags (snd (reset demoTwo (demoWorld demoScript)))) = None"
  by (simp add: eval_bundle eval_provision eval_demo eval_paths eval_prims eval_fs)

lemma demoTwo_script:
  "script (snd (bundleEnv demoLib demoTwo demoEnvTags (snd (reset demoTwo (demoWorld demoScript)))))
   = [failEvent ''permission denied'' False]"
  by (simp add: eval_bundle eval_provision eval_demo eval_paths eval_prims eval_fs)

lemma demoTwo_linux_output:
  "fs (snd (bundleEnv demoLib demoTwo demoEnvTags (snd (reset demoTwo (demoWorld demoScript)))))
      ''/out/linux-gtk-static-amd64/Demo'' \<noteq> None"
  by (simp add: eval_bundle eval_provision eval_demo eval_paths eval_prims eval_fs)

lemma demoTwo_apart:
  "\<forall>p \<in> set (footprint demoLib demoTwo demoEnvWindows).
     apart (environmentPath demoTwo demoEnvTags) p"
  by (simp add: footprint_def vendorAstilectron_def vendorElectron_def eval_bundle
      eval_provision eval_demo eval_paths eval_fs)

lemma demoTwo_under:
  "under (environmentPath demoTwo demoEnvTags) ''/out/linux-gtk-static-amd64/Demo''"
  by (simp add: eval_bundle eval_demo eval_paths eval_fs)

lemma demoTwo_selected: "selected demoLib demoTwo e"
  by (simp add: selected_def demoTwo_def demoBundler_def)

lemma demoTwo_windows_path: "environmentPath demoTwo demoEnvWindows = ''/out/windows-amd64''"
  by (simp add: eval_bundle eval_demo eval_paths)

lemma bundleEnv_first_step_fails:
  "ev_err (nextEvent w) = Some x \<Longrightarrow>
   fst (bundleEnv L b e w) = Some (Wrap (''removing '' @ environmentPath b e @ '' failed'') x)"
  by (simp add: bundleEnv_def attempt_def os_RemoveAll_def primitive_def)

subsection \<open>The compiler process\<close>

lemma unchanged_run: "unchanged g m \<Longrightarrow> m w = (r, w') \<Longrightarrow> g w' = g w"
  using unchangedD [of g m w] by simp

lemma buildCmd_Env:
  "Env (buildCmd b e w) =
     [''GOARCH='' @ Arch e, ''GOOS='' @ OS e,
      ''GOPATH='' @ environ w ''GOPATH'', ''PATH='' @ environ w ''PATH'']"
  by (simp add: buildCmd_def)

lemma compile_None:
  assumes "compile b e w = (None, w')"
  shows "lookPathErr (buildCmd b e w) = None" "execs w' = execs w @ [buildCmd b e w]"
proof -
  show l: "lookPathErr (buildCmd b e w) = None"
    using assms by (auto simp: compile_def cmd_CombinedOutput_def split: option.splits)
  show "execs w' = execs w @ [buildCmd b e w]"
    using compile_execs [of b e w] assms l by simp
qed

lemma bundleEnv_None_execs:
  assumes "bundleEnv L b e w = (None, w')"
  shows "\<exists>w4. execs w4 = execs w \<and> environ w4 = environ w
            \<and> lookPathErr (buildCmd b e w4) = None
            \<and> execs w' = execs w @ [buildCmd b e w4]"
proof -
  from assms obtain w1 w2 w3 w4 w5 where
    s1: "os_RemoveAll (environmentPath b e) w = (None, w1)"
    and s2: "os_MkdirAll (environmentPath b e) w1 = (None, w2)"
    and s3: "BindData L b (OS e) (Arch e) (Tags e) w2 = (None, w3)"
    and s4: "(if OS e = ''windows'' then addWindowsSyso b (Arch e) else succeed) w3 = (None, w4)"
    and s5: "compile b e w4 = (None, w5)"
    and s6: "finish b e w5 = (None, w')"
    unfolding bundleEnv_def attempt_None by blast
  have u: "g w4 = g w" if i: "inert g" for g :: "world \<Rightarrow> 'a"
  proof -
    have "g w1 = g w"
      by (rule unchanged_run [where m = "os_RemoveAll (environmentPath b e)", OF _ s1]) (simp add: os_RemoveAll_def unchanged_primitive i)
    moreover have "g w2 = g w1"
      by (rule unchanged_run [where m = "os_MkdirAll (environmentPath b e)", OF _ s2]) (simp add: os_MkdirAll_def unchanged_primitive i)
    moreover have "g w3 = g w2"
      by (rule unchanged_run [where m = "BindData L b (OS e) (Arch e) (Tags e)", OF _ s3]) (rule unchanged_BindData [OF i])
    moreover have "g w4 = g w3"
      by (rule unchanged_run [where m = "if OS e = ''windows'' then addWindowsSyso b (Arch e) else succeed", OF _ s4])
        (intro unchanged_if unchanged_addWindowsSyso unchanged_succeed i)
    ultimately show ?thesis by simp
  qed
  have "execs w' = execs w5"
    by (rule unchanged_run [where m = "finish b e", OF _ s6]) (rule unchanged_finish [OF inert_execs])
  then show ?thesis
    using compile_None [OF s5] u [OF inert_execs] u [OF inert_environ] by auto
qed

lemma demo_compile:
  "fst (bundleEnv demoLib demoBundler demoEnvTags (demoWorld [])) = None"
  "execs (demoWorld []) = []"
  by (simp_all add: eval_bundle eval_provision eval_demo eval_paths eval_prims eval_fs)

subsection \<open>The cancellation token\<close>

lemma advance_Stop: "advance (Stop w) = Stop (advance w)"
  by (simp add: advance_def Stop_def nextEvent_def)


























section \<open>Resolving configured paths (claim C6)\<close>

text \<open>
  Claim C6. For a non-empty raw path, \<open>absPath\<close> returns the path of \<open>filepath.Abs\<close>: it
  succeeds exactly when \<open>filepath.Abs\<close> does, the result is then absolute (given that the
  working directory is), and a failure of \<open>filepath.Abs\<close> is returned wrapped. For an empty
  raw path it returns exactly what the default function returns, with the function's
  error wrapped; with no default function it returns the empty path and no error.
\<close>

theorem absPath_resolves:
  "(configPath \<noteq> [] \<longrightarrow>
      fst (absPath getwd configPath dflt) = fst (filepath_Abs getwd configPath)
      \<and> (snd (filepath_Abs getwd configPath) = None \<longrightarrow> snd (absPath getwd configPath dflt) = None)
      \<and> (\<forall>err. snd (filepath_Abs getwd configPath) = Some err \<longrightarrow>
            snd (absPath getwd configPath dflt)
              = Some (Wrap (''filepath.Abs of '' @ configPath @ '' failed'') err))
      \<and> (isAbs (fst getwd) \<and> snd (absPath getwd configPath dflt) = None \<longrightarrow>
            isAbs (fst (absPath getwd configPath dflt))))
   \<and> (configPath = [] \<longrightarrow>
        (\<forall>out. dflt = Some (out, None) \<longrightarrow> absPath getwd configPath dflt = (out, None))
      \<and> (\<forall>out err. dflt = Some (out, Some err) \<longrightarrow>
            absPath getwd configPath dflt
              = (out, Some (Wrap ''default path function to compute absPath of  failed'' err)))
      \<and> (dflt = None \<longrightarrow> absPath getwd configPath dflt = ([], None)))"
proof (intro conjI impI allI)
  assume ne: "configPath \<noteq> []"
  obtain out r where ab: "filepath_Abs getwd configPath = (out, r)" by (cases "filepath_Abs getwd configPath")
  show "fst (absPath getwd configPath dflt) = fst (filepath_Abs getwd configPath)"
    using ne ab by (cases r) (simp_all add: absPath_def)
  show "snd (absPath getwd configPath dflt) = None"
    if "snd (filepath_Abs getwd configPath) = None"
    using ne ab that by (simp add: absPath_def)
  show "snd (absPath getwd configPath dflt) = Some (Wrap (''filepath.Abs of '' @ configPath @ '' failed'') err)"
    if "snd (filepath_Abs getwd configPath) = Some err" for err
    using ne ab that by (simp add: absPath_def)
  show "isAbs (fst (absPath getwd configPath dflt))"
    if "isAbs (fst getwd) \<and> snd (absPath getwd configPath dflt) = None"
  proof -
    from that ne ab have "r = None" by (cases r) (simp_all add: absPath_def)
    with ab that have "isAbs out" using Abs_isAbs by blast
    with ne ab \<open>r = None\<close> show ?thesis by (simp add: absPath_def)
  qed
qed (simp_all add: absPath_def)

theorem absPath_resolves_witness:
  "absPath (''/home/u'', None) ''proj/../app'' None = (''/home/u/app'', None)
   \<and> isAbs (fst (absPath (''/home/u'', None) ''proj/../app'' None))
   \<and> absPath ([], Some (Failure ''getwd'')) ''app'' None
       = ([], Some (Wrap ''filepath.Abs of app failed'' (Failure ''getwd'')))
   \<and> absPath (''/home/u'', None) [] (Some (''/tmp/astibundler'', None)) = (''/tmp/astibundler'', None)
   \<and> absPath (''/home/u'', None) [] (Some ([], Some (Failure ''getwd'')))
       = ([], Some (Wrap ''default path function to compute absPath of  failed'' (Failure ''getwd'')))
   \<and> absPath (''/home/u'', None) [] None = ([], None)"
proof -
  have ab: "filepath_Abs (''/home/u'', None) ''proj/../app'' = (''/home/u/app'', None)"
    by (simp add: filepath_Abs_def isAbs_def filepath_Join_def filepath_Clean_def cleanStep_def Let_def)
  have ab2: "filepath_Abs ([], Some (Failure ''getwd'')) ''app'' = ([], Some (Failure ''getwd''))"
    by (simp add: filepath_Abs_def isAbs_def)
  note a = absPath_resolves [of "''proj/../app''" "(''/home/u'', None)" None]
  note b = absPath_resolves [of "''app''" "([], Some (Failure ''getwd''))" None]
  note c = absPath_resolves [of "[]" "(''/home/u'', None)" "Some (''/tmp/astibundler'', None)"]
  note d = absPath_resolves [of "[]" "(''/home/u'', None)" "Some ([], Some (Failure ''getwd''))"]
  note e = absPath_resolves [of "[]" "(''/home/u'', None)" None]
  have 1: "absPath (''/home/u'', None) ''proj/../app'' None = (''/home/u/app'', None)"
    using a ab by (simp add: prod_eq_iff)
  have 2: "isAbs (fst (absPath (''/home/u'', None) ''proj/../app'' None))"
    using a ab by (simp add: isAbs_def)
  have 3: "absPath ([], Some (Failure ''getwd'')) ''app'' None
       = ([], Some (Wrap ''filepath.Abs of app failed'' (Failure ''getwd'')))"
    using b ab2 by (simp add: prod_eq_iff)
  show ?thesis using 1 2 3 c d e by simp
qed

section \<open>The two derivations of the environment name (claim C10)\<close>

text \<open>
  Claim C10, as amended. When the operating system is a plain name and neither the tags nor
  the architecture contain a path separator, the name \<open>Bundle\<close> computes for the filter is
  the base name of the directory \<open>bundle\<close> computes, removes and recreates.
\<close>

theorem eName_environmentPath_base:
  assumes "plainName (OS e)" "CHR ''/'' \<notin> set (Tags e)" "CHR ''/'' \<notin> set (Arch e)"
  shows "filepath_Base (environmentPath b e) = eName e"
proof -
  obtain pre where j: "filepath_Join [pathOutput b, OS e] = pre @ OS e"
    and pre: "pre = [] \<or> last pre = CHR ''/''"
    using Join_plain_last [OF assms(1)] by blast
  define s where "s = eName e"
  have s_ne: "s \<noteq> []" using assms(1) by (simp add: s_def eName_def plainName_def Let_def)
  have s_plain: "CHR ''/'' \<notin> set s"
    using assms by (auto simp: s_def eName_def plainName_def Let_def replaceSpaces_def)
  have "environmentPath b e = pre @ s"
    by (simp add: environmentPath_def j s_def eName_def Let_def)
  then show ?thesis using Base_last_element [OF s_ne s_plain pre] by (simp add: s_def)
qed

theorem eName_environmentPath_base_witness:
  "filepath_Base (environmentPath demoBundler demoEnvTags) = ''linux-gtk-static-amd64''
   \<and> eName demoEnvTags = ''linux-gtk-static-amd64''"
proof -
  have "filepath_Base (environmentPath demoBundler demoEnvTags) = eName demoEnvTags"
    by (rule eName_environmentPath_base) (simp_all add: demoEnvTags_def plainName_def)
  moreover have "eName demoEnvTags = ''linux-gtk-static-amd64''"
    by (simp add: eName_def demoEnvTags_def replaceSpaces_def Let_def)
  ultimately show ?thesis by simp
qed

text \<open>
  Without the restriction the two derivations differ: for the architecture \<open>arm/v7\<close> the
  filter name is \<open>linux-arm/v7\<close>, while the directory is \<open>/out/linux-arm/v7\<close>, whose base
  name is \<open>v7\<close>.
\<close>

theorem eName_differs_from_base_counterexample:
  "eName demoEnvSlash = ''linux-arm/v7''
   \<and> environmentPath demoBundler demoEnvSlash = ''/out/linux-arm/v7''
   \<and> filepath_Base (environmentPath demoBundler demoEnvSlash) = ''v7''
   \<and> filepath_Base (environmentPath demoBundler demoEnvSlash) \<noteq> eName demoEnvSlash"
  by (simp add: eName_def environmentPath_def demoEnvSlash_def demoBundler_def Let_def
      filepath_Join_def filepath_Clean_def cleanStep_def filepath_Base_def)

section \<open>A cache path that cannot be examined counts as a hit (claim C9)\<close>

text \<open>
  Claim C9. Whenever \<open>os.Stat\<close> of the cache path returns anything but "does not exist"
  (file information, or an error of another kind such as a permission error),
  \<open>provisionVendorZip\<close> performs no download: it continues with the context check and the
  copy of the cache entry, the log of fetches is unchanged, and the result is success,
  cancellation, or the wrapped error of the copy; the error of \<open>os.Stat\<close> is dropped.
\<close>

theorem provisionVendorZip_skips_download:
  assumes "fst (os_Stat pCache w) \<noteq> StatNotExist"
  shows "provisionVendorZip pDownload pCache pVendor w
           = checkCtx (attempt (astios_Copy pCache pVendor)
               (Wrap (''copying '' @ pCache @ '' to '' @ pVendor @ '' failed''))
               (checkCtx succeed)) (advance w)
         \<and> fetches (snd (provisionVendorZip pDownload pCache pVendor w)) = fetches w
         \<and> (fst (provisionVendorZip pDownload pCache pVendor w) = None
            \<or> fst (provisionVendorZip pDownload pCache pVendor w) = Some Canceled
            \<or> (\<exists>e. fst (astios_Copy pCache pVendor (advance w)) = Some e
                 \<and> fst (provisionVendorZip pDownload pCache pVendor w)
                     = Some (Wrap (''copying '' @ pCache @ '' to '' @ pVendor @ '' failed'') e)))"
proof -
  let ?rest = "checkCtx (attempt (astios_Copy pCache pVendor)
               (Wrap (''copying '' @ pCache @ '' to '' @ pVendor @ '' failed''))
               (checkCtx succeed))"
  have eq: "provisionVendorZip pDownload pCache pVendor w = ?rest (advance w)"
  proof -
    obtain st w1 where s: "os_Stat pCache w = (st, w1)" by fastforce
    then have "w1 = advance w" "st \<noteq> StatNotExist"
      using assms os_Stat_snd [of pCache w] by simp_all
    then show ?thesis
      by (simp add: provisionVendorZip_def s IsNotExist_def attempt_def succeed_def)
  qed
  have "unchanged fetches ?rest"
    unfolding astios_Copy_def
    by (intro unchanged_checkCtx unchanged_attempt unchanged_primitive_fetches unchanged_succeed)
  then have fe: "fetches (snd (?rest (advance w))) = fetches w"
    using unchangedD [of fetches ?rest "advance w"] by simp
  have res: "fst (?rest (advance w)) = None \<or> fst (?rest (advance w)) = Some Canceled
      \<or> (\<exists>e. fst (astios_Copy pCache pVendor (advance w)) = Some e
            \<and> fst (?rest (advance w)) = Some (Wrap (''copying '' @ pCache @ '' to '' @ pVendor @ '' failed'') e))"
  proof (cases "cancelled (advance w)")
    case True
    then show ?thesis by (simp add: checkCtx_def)
  next
    case False
    obtain r w2 where c: "astios_Copy pCache pVendor (advance w) = (r, w2)" by fastforce
    show ?thesis
    proof (cases r)
      case None
      then show ?thesis using False c by (simp add: checkCtx_def attempt_def succeed_def)
    next
      case (Some e)
      then show ?thesis using False c by (simp add: checkCtx_def attempt_def)
    qed
  qed
  show ?thesis unfolding eq by (intro conjI refl fe res)
qed

theorem provisionVendorZip_skips_download_witness:
  "fst (os_Stat ''/cache/astilectron-0.6.0.zip'' demoZipWorld) = StatError (Failure ''permission denied'')
   \<and> provisionVendorZip ''https://example.org/a.zip'' ''/cache/astilectron-0.6.0.zip''
         ''/src/demo/vendor/astilectron.zip'' demoZipWorld
       = (Some (Wrap ''copying /cache/astilectron-0.6.0.zip to /src/demo/vendor/astilectron.zip failed''
                 (Failure ''no such file or directory'')),
          advance (advance demoZipWorld))
   \<and> fetches (snd (provisionVendorZip ''https://example.org/a.zip'' ''/cache/astilectron-0.6.0.zip''
         ''/src/demo/vendor/astilectron.zip'' demoZipWorld)) = []"
proof -
  have st: "fst (os_Stat ''/cache/astilectron-0.6.0.zip'' demoZipWorld) = StatError (Failure ''permission denied'')"
    by (simp add: os_Stat_def nextEvent_def demoZipWorld_def)
  then have ne: "fst (os_Stat ''/cache/astilectron-0.6.0.zip'' demoZipWorld) \<noteq> StatNotExist" by simp
  note t = provisionVendorZip_skips_download [OF ne, of "''https://example.org/a.zip''" "''/src/demo/vendor/astilectron.zip''"]
  have c: "cancelled (advance demoZipWorld) = False"
    by (simp add: nextEvent_def demoZipWorld_def)
  have cp: "astios_Copy ''/cache/astilectron-0.6.0.zip'' ''/src/demo/vendor/astilectron.zip'' (advance demoZipWorld)
      = (Some (Failure ''no such file or directory''), advance (advance demoZipWorld))"
    by (simp add: astios_Copy_def primitive_def nextEvent_def demoZipWorld_def)
  have f: "fetches demoZipWorld = []" by (simp add: demoZipWorld_def)
  have t1: "provisionVendorZip ''https://example.org/a.zip'' ''/cache/astilectron-0.6.0.zip''
         ''/src/demo/vendor/astilectron.zip'' demoZipWorld
       = (Some (Wrap ''copying /cache/astilectron-0.6.0.zip to /src/demo/vendor/astilectron.zip failed''
                 (Failure ''no such file or directory'')),
          advance (advance demoZipWorld))"
    using conjunct1 [OF t] c cp by (simp add: checkCtx_def attempt_def)
  have t2: "fetches (snd (provisionVendorZip ''https://example.org/a.zip'' ''/cache/astilectron-0.6.0.zip''
         ''/src/demo/vendor/astilectron.zip'' demoZipWorld)) = []"
    using conjunct1 [OF conjunct2 [OF t]] f by simp
  show ?thesis by (intro conjI st t1 t2)
qed

section \<open>The darwin bundle (claim C3)\<close>



section \<open>The icon entry of Info.plist (claim C8)\<close>




section \<open>The vendor directory after provisioning (claim C1)\<close>


section \<open>Provisioning twice with the same key (claim C2)\<close>

text \<open>
  Claim C2, as amended. Let no local astilectron directory be configured, the vendor
  directory be a cleaned absolute path, the archive names plain and different, and the two
  cache entries lie apart from the vendor directory and from each other. If neither cache
  entry exists,
  a successful \<open>provisionVendor\<close> makes exactly one fetch for each of the two keys, into
  its cache path. A later successful \<open>provisionVendor\<close> for the same keys, started in any
  world in which the cache entries are as the first run left them, makes no fetch, leaves
  the cache entries as they are (they were copied, not moved), and produces the same vendor
  directory, path for path.
\<close>

theorem provisionVendor_cache_idempotent:
  assumes noov: "pathAstilectron b = []"
    and cl: "cleanAbs (pathVendor b)"
    and names: "plainName (zipNameAstilectron L)" "plainName (zipNameElectron L)"
      "zipNameAstilectron L \<noteq> zipNameElectron L"
    and cache: "apart (pathVendor b) (cacheAstilectron L b)"
      "apart (pathVendor b) (cacheElectron L b oS arch)"
      "apart (cacheAstilectron L b) (cacheElectron L b oS arch)"
    and absent: "fs w (cacheAstilectron L b) = None" "fs w (cacheElectron L b oS arch) = None"
    and run1: "provisionVendor L b oS arch w = (None, w1)"
    and kept: "\<forall>r. under (cacheAstilectron L b) r \<or> under (cacheElectron L b oS arch) r \<longrightarrow>
                 fs w1' r = fs w1 r"
      "fetches w1' = fetches w1"
    and run2: "provisionVendor L b oS arch w1' = (None, w2)"
  shows "fetches w1 = fetches w @ [(AstilectronDownloadSrc L, cacheAstilectron L b),
                                   (ElectronDownloadSrc L oS arch, cacheElectron L b oS arch)]
       \<and> fetches w2 = fetches w1'
       \<and> (\<forall>q. under (pathVendor b) q \<longrightarrow> fs w2 q = fs w1 q)
       \<and> fs w1 (cacheAstilectron L b) = Some (File (Remote (AstilectronDownloadSrc L)) 420)
       \<and> fs w2 (cacheAstilectron L b) = fs w1 (cacheAstilectron L b)
       \<and> fs w1 (cacheElectron L b oS arch) = Some (File (Remote (ElectronDownloadSrc L oS arch)) 420)
       \<and> fs w2 (cacheElectron L b oS arch) = fs w1 (cacheElectron L b oS arch)"
proof -
  define pA where "pA = cacheAstilectron L b"
  define pE where "pE = cacheElectron L b oS arch"
  define vA where "vA = vendorAstilectron L b"
  define vE where "vE = vendorElectron L b"
  note S1 = provisionVendor_shape [OF run1 noov cl names cache, folded pA_def pE_def vA_def vE_def]
  note S2 = provisionVendor_shape [OF run2 noov cl names cache, folded pA_def pE_def vA_def vE_def]
  have ab: "fs w pA = None" "fs w pE = None" using absent by (simp_all add: pA_def pE_def)
  have k: "fs w1' r = fs w1 r" if "under pA r \<or> under pE r" for r
    using kept(1) that unfolding pA_def pE_def by blast
  have a1: "fs w1 pA = Some (File (Remote (AstilectronDownloadSrc L)) 420)"
    using S1 ab by (simp add: under_refl)
  have e1: "fs w1 pE = Some (File (Remote (ElectronDownloadSrc L oS arch)) 420)"
    using S1 ab by (simp add: under_refl)
  have f1: "fetches w1 = fetches w @ [(AstilectronDownloadSrc L, pA), (ElectronDownloadSrc L oS arch, pE)]"
    using S1 ab by simp
  have p1: "fs w1' pA \<noteq> None" "fs w1' pE \<noteq> None"
    using k [of pA] k [of pE] a1 e1 by (simp_all add: under_refl)
  have f2: "fetches w2 = fetches w1'" using S2 p1 by simp
  have cA: "fs w2 r = fs w1 r" if "under pA r" for r
  proof -
    have "fs w2 r = fs w1' r" using S2 that p1 by auto
    then show ?thesis using k [of r] that by simp
  qed
  have cE: "fs w2 r = fs w1 r" if "under pE r" for r
  proof -
    have "fs w2 r = fs w1' r" using S2 that p1 by auto
    then show ?thesis using k [of r] that by simp
  qed
  have v: "fs w2 q = fs w1 q" if "under (pathVendor b) q" for q
  proof -
    have x: "fs w2 pA = fs w1 pA" "fs w2 pE = fs w1 pE"
      "fs w2 (relocate pA vA q) = fs w1 (relocate pA vA q)"
      "fs w2 (relocate pE vE q) = fs w1 (relocate pE vE q)"
      using cA [OF under_refl] cE [OF under_refl] cA [OF relocate_under] cE [OF relocate_under]
      by simp_all
    have "fs w2 q =
              (if q = vE then fs w2 pE
               else if prefix (dirPrefix vE) q \<and> fs w2 (relocate pE vE q) \<noteq> None
               then fs w2 (relocate pE vE q)
               else if q = vA then fs w2 pA
               else if prefix (dirPrefix vA) q \<and> fs w2 (relocate pA vA q) \<noteq> None
               then fs w2 (relocate pA vA q)
               else if q = pathVendor b then Some Dir else None)"
      using S2 that by blast
    moreover have "fs w1 q =
              (if q = vE then fs w1 pE
               else if prefix (dirPrefix vE) q \<and> fs w1 (relocate pE vE q) \<noteq> None
               then fs w1 (relocate pE vE q)
               else if q = vA then fs w1 pA
               else if prefix (dirPrefix vA) q \<and> fs w1 (relocate pA vA q) \<noteq> None
               then fs w1 (relocate pA vA q)
               else if q = pathVendor b then Some Dir else None)"
      using S1 that by blast
    ultimately show ?thesis unfolding x by simp
  qed
  show ?thesis
    unfolding pA_def [symmetric] pE_def [symmetric]
    using f1 f2 v a1 e1 cA [OF under_refl] cE [OF under_refl] by blast
qed


theorem provisionVendor_cache_idempotent_witness:
  "fst (provisionVendor demoLib demoBundler ''linux'' ''amd64'' (demoWorld [])) = None
   \<and> fst (provisionVendor demoLib demoBundler ''linux'' ''amd64'' demoProvisioned) = None
   \<and> fetches demoProvisioned
      = [(''https://example.org/astilectron/v0.6.0.zip'', ''/cache/astilectron-0.6.0.zip''),
         (''https://example.org/electron/v1.6.5/linux-amd64.zip'', ''/cache/electron-linux-amd64-1.6.5.zip'')]
   \<and> fetches (snd (provisionVendor demoLib demoBundler ''linux'' ''amd64'' demoProvisioned))
      = fetches demoProvisioned
   \<and> fs (snd (provisionVendor demoLib demoBundler ''linux'' ''amd64'' demoProvisioned))
        ''/src/demo/vendor/electron.zip''
      = fs demoProvisioned ''/src/demo/vendor/electron.zip''
   \<and> fs (snd (provisionVendor demoLib demoBundler ''linux'' ''amd64'' demoProvisioned))
        ''/cache/electron-linux-amd64-1.6.5.zip''
      = Some (File (Remote ''https://example.org/electron/v1.6.5/linux-amd64.zip'') 420)"
proof -
  define w2 where "w2 = snd (provisionVendor demoLib demoBundler ''linux'' ''amd64'' demoProvisioned)"
  have run1: "provisionVendor demoLib demoBundler ''linux'' ''amd64'' (demoWorld []) = (None, demoProvisioned)"
    using provisionVendor_first(1) by (simp add: demoProvisioned_def prod_eq_iff)
  have run2: "provisionVendor demoLib demoBundler ''linux'' ''amd64'' demoProvisioned = (None, w2)"
    using provisionVendor_second by (simp add: w2_def prod_eq_iff)
  have ap: "apart (pathVendor demoBundler) (cacheAstilectron demoLib demoBundler)"
    "apart (pathVendor demoBundler) (cacheElectron demoLib demoBundler ''linux'' ''amd64'')"
    "apart (cacheAstilectron demoLib demoBundler) (cacheElectron demoLib demoBundler ''linux'' ''amd64'')"
    unfolding demo_layout by (rule demo_apart)+
  have absent: "fs (demoWorld []) (cacheAstilectron demoLib demoBundler) = None"
    "fs (demoWorld []) (cacheElectron demoLib demoBundler ''linux'' ''amd64'') = None"
    unfolding demo_layout by (rule provisionVendor_first)+
  have kept: "\<forall>r. under (cacheAstilectron demoLib demoBundler) r
                \<or> under (cacheElectron demoLib demoBundler ''linux'' ''amd64'') r \<longrightarrow>
                 fs demoProvisioned r = fs demoProvisioned r"
    "fetches demoProvisioned = fetches demoProvisioned"
    by simp_all
  note t = provisionVendor_cache_idempotent [OF demo_layout(10) demo_layout(1-4) ap absent run1 kept run2,
      unfolded demo_layout]
  have u: "under ''/src/demo/vendor'' ''/src/demo/vendor/electron.zip''" by (simp add: eval_fs)
  have f1: "fetches demoProvisioned
      = [(''https://example.org/astilectron/v0.6.0.zip'', ''/cache/astilectron-0.6.0.zip''),
         (''https://example.org/electron/v1.6.5/linux-amd64.zip'', ''/cache/electron-linux-amd64-1.6.5.zip'')]"
    using t [THEN conjunct1] provisionVendor_first(4) by (simp add: demoLib_def)
  have f2: "fetches w2 = fetches demoProvisioned" using t [THEN conjunct2, THEN conjunct1] .
  have v: "fs w2 ''/src/demo/vendor/electron.zip'' = fs demoProvisioned ''/src/demo/vendor/electron.zip''"
    using t [THEN conjunct2, THEN conjunct2, THEN conjunct1] u by blast
  have c: "fs w2 ''/cache/electron-linux-amd64-1.6.5.zip''
      = Some (File (Remote ''https://example.org/electron/v1.6.5/linux-amd64.zip'') 420)"
    using t [THEN conjunct2, THEN conjunct2, THEN conjunct2, THEN conjunct2, THEN conjunct2]
    by (simp add: demoLib_def)
  show ?thesis
    unfolding w2_def [symmetric]
    by (intro conjI provisionVendor_first(1) provisionVendor_second f1 f2 v c)
qed

text \<open>
  The claim as first stated fails for the astilectron key when a local astilectron
  directory is configured: the first provisioning, with an empty cache, succeeds without
  any fetch into the cache path of astilectron. The cache entry is zipped from the local
  directory; the only fetch is the one of the electron archive.
\<close>

theorem provisionVendor_cache_idempotent_counterexample:
  "pathAstilectron demoOverride \<noteq> []
   \<and> fs (demoWorld []) ''/cache/astilectron-0.6.0.zip'' = None
   \<and> fst (provisionVendor demoLib demoOverride ''linux'' ''amd64'' (demoWorld [])) = None
   \<and> fetches (snd (provisionVendor demoLib demoOverride ''linux'' ''amd64'' (demoWorld [])))
      = [(''https://example.org/electron/v1.6.5/linux-amd64.zip'',
          ''/cache/electron-linux-amd64-1.6.5.zip'')]
   \<and> fs (snd (provisionVendor demoLib demoOverride ''linux'' ''amd64'' (demoWorld [])))
        ''/cache/astilectron-0.6.0.zip''
      = Some (File (Produced ''zip'' [''/src/astilectron'', ''astilectron-0.6.0'']) 420)"
  by (simp add: demoOverride_def eval_provision eval_demo eval_paths eval_prims eval_fs)

section \<open>The run over the environments (claim C5)\<close>

text \<open>
  Claim C5. \<open>Bundle\<close> goes through the environments in the order of the configuration, and
  the first environment whose build fails ends the run: when the environments are
  \<open>pre @ e # post\<close>, the reset and the loop over \<open>pre\<close> return no error, and the build of
  the selected environment \<open>e\<close> fails with \<open>err\<close> in the world \<open>w'\<close>, then \<open>Bundle\<close> returns
  \<open>err\<close> wrapped in a message that names the OS and the architecture of \<open>e\<close>, and it
  returns in the very world \<open>w'\<close> in which that build failed: nothing is run, fetched or
  written for the environments of \<open>post\<close>. The output of an environment \<open>a\<close> of \<open>pre\<close> that
  was built is as that build left it, whenever the directory of \<open>a\<close> is apart from every
  path that the selected environments after \<open>a\<close>, up to \<open>e\<close>, write to (two environments
  with the same directory overwrite each other).
\<close>

theorem Bundle_stops_at_first_failure:
  assumes envs: "environments b = pre @ e # post"
    and r0: "reset b w = (None, w0)"
    and r1: "bundleEach L b pre w0 = (None, we)"
    and se: "selected L b e"
    and re: "bundleEnv L b e we = (Some err, w')"
  shows "Bundle L b w =
           (Some (Wrap (''bundling for environment '' @ OS e @ ''/'' @ Arch e @ '' failed'') err), w')
         \<and> (\<forall>pre1 a pre2 wa0 wa q.
              pre = pre1 @ a # pre2 \<and> selected L b a
              \<and> bundleEach L b pre1 w0 = (None, wa0) \<and> bundleEnv L b a wa0 = (None, wa)
              \<and> (\<forall>x \<in> set (pre2 @ [e]). selected L b x \<longrightarrow>
                    (\<forall>p \<in> set (footprint L b x). apart (environmentPath b a) p))
              \<and> under (environmentPath b a) q
              \<longrightarrow> fs w' q = fs wa q)"
proof (intro conjI allI impI)
  have "bundleEach L b (e # post) we =
          (Some (Wrap (''bundling for environment '' @ OS e @ ''/'' @ Arch e @ '' failed'') err), w')"
    unfolding bundleEach_selected [OF se] using re by (rule attempt_fail)
  then have "bundleEach L b (environments b) w0 =
          (Some (Wrap (''bundling for environment '' @ OS e @ ''/'' @ Arch e @ '' failed'') err), w')"
    unfolding envs bundleEach_append using r1 by simp
  then show "Bundle L b w =
          (Some (Wrap (''bundling for environment '' @ OS e @ ''/'' @ Arch e @ '' failed'') err), w')"
    unfolding Bundle_def by (simp add: attempt_def r0)
next
  fix pre1 a pre2 wa0 wa q
  assume h: "pre = pre1 @ a # pre2 \<and> selected L b a
              \<and> bundleEach L b pre1 w0 = (None, wa0) \<and> bundleEnv L b a wa0 = (None, wa)
              \<and> (\<forall>x \<in> set (pre2 @ [e]). selected L b x \<longrightarrow>
                    (\<forall>p \<in> set (footprint L b x). apart (environmentPath b a) p))
              \<and> under (environmentPath b a) q"
  then have p: "pre = pre1 @ a # pre2" and sa: "selected L b a"
    and r1a: "bundleEach L b pre1 w0 = (None, wa0)" and ra: "bundleEnv L b a wa0 = (None, wa)"
    and sep: "\<forall>x \<in> set (pre2 @ [e]). selected L b x \<longrightarrow>
                    (\<forall>p \<in> set (footprint L b x). apart (environmentPath b a) p)"
    and u: "under (environmentPath b a) q"
    by blast+
  have "bundleEach L b (a # pre2) wa0 = (None, we)"
    using r1 r1a unfolding p bundleEach_append by simp
  then have r2: "bundleEach L b pre2 wa = (None, we)"
    unfolding bundleEach_selected [OF sa] using ra by (simp add: attempt_None)
  have sepq: "\<forall>x \<in> set (pre2 @ [e]). selected L b x \<longrightarrow> (\<forall>p \<in> set (footprint L b x). apart q p)"
    using sep u apart_sub by blast
  have "unchanged (\<lambda>w. fs w q) (bundleEach L b pre2)"
    by (rule frame_bundleEach) (use sepq in simp)
  from unchangedD [OF this, of wa] have 1: "fs we q = fs wa q" using r2 by simp
  have "unchanged (\<lambda>w. fs w q) (bundleEnv L b e)"
    by (rule frame_bundleEnv) (use sepq se in simp)
  from unchangedD [OF this, of we] have 2: "fs w' q = fs we q" using re by simp
  show "fs w' q = fs wa q" using 1 2 by simp
qed

theorem Bundle_stops_at_first_failure_witness:
  "fst (Bundle demoLib demoTwo (demoWorld demoScript)) =
     Some (Wrap ''bundling for environment windows/amd64 failed''
            (Wrap ''removing /out/windows-amd64 failed'' (Failure ''permission denied'')))
   \<and> fs (snd (Bundle demoLib demoTwo (demoWorld demoScript))) ''/out/linux-gtk-static-amd64/Demo''
     = fs (snd (bundleEnv demoLib demoTwo demoEnvTags (snd (reset demoTwo (demoWorld demoScript)))))
          ''/out/linux-gtk-static-amd64/Demo''
   \<and> fs (snd (Bundle demoLib demoTwo (demoWorld demoScript))) ''/out/linux-gtk-static-amd64/Demo'' \<noteq> None"
proof -
  define w0 where "w0 = snd (reset demoTwo (demoWorld demoScript))"
  define wa where "wa = snd (bundleEnv demoLib demoTwo demoEnvTags w0)"
  define w' where "w' = snd (bundleEnv demoLib demoTwo demoEnvWindows wa)"
  define err where "err = Wrap ''removing /out/windows-amd64 failed'' (Failure ''permission denied'')"
  have envs: "environments demoTwo = [demoEnvTags] @ demoEnvWindows # []"
    by (simp add: demoTwo_def)
  have r0: "reset demoTwo (demoWorld demoScript) = (None, w0)"
    unfolding w0_def using demoTwo_reset by (simp add: prod_eq_iff)
  have ra: "bundleEnv demoLib demoTwo demoEnvTags w0 = (None, wa)"
    unfolding wa_def w0_def using demoTwo_linux by (simp add: prod_eq_iff)
  have r1: "bundleEach demoLib demoTwo [demoEnvTags] w0 = (None, wa)"
    unfolding bundleEach_selected [OF demoTwo_selected] using ra
    by (simp add: attempt_def succeed_def)
  have "script wa = [failEvent ''permission denied'' False]"
    unfolding wa_def w0_def by (rule demoTwo_script)
  then have "ev_err (nextEvent wa) = Some (Failure ''permission denied'')"
    by (simp add: nextEvent_def failEvent_def)
  then have "fst (bundleEnv demoLib demoTwo demoEnvWindows wa) = Some err"
    unfolding err_def using bundleEnv_first_step_fails [of wa _ demoLib demoTwo demoEnvWindows]
    by (simp add: demoTwo_windows_path)
  then have re: "bundleEnv demoLib demoTwo demoEnvWindows wa = (Some err, w')"
    unfolding w'_def by (simp add: prod_eq_iff)
  have r1a: "bundleEach demoLib demoTwo [] w0 = (None, w0)"
    by (simp add: succeed_def)
  note t = Bundle_stops_at_first_failure [OF envs r0 r1 demoTwo_selected re]
  have b: "Bundle demoLib demoTwo (demoWorld demoScript) =
      (Some (Wrap (''bundling for environment '' @ OS demoEnvWindows @ ''/'' @ Arch demoEnvWindows @ '' failed'') err), w')"
    using t by (rule conjunct1)
  have i: "fs w' ''/out/linux-gtk-static-amd64/Demo'' = fs wa ''/out/linux-gtk-static-amd64/Demo''"
    using t [THEN conjunct2, rule_format, of "[]" demoEnvTags "[]" w0 wa "''/out/linux-gtk-static-amd64/Demo''"]
      demoTwo_selected ra r1a demoTwo_apart demoTwo_under
    by simp
  have n: "fs wa ''/out/linux-gtk-static-amd64/Demo'' \<noteq> None"
    unfolding wa_def w0_def by (rule demoTwo_linux_output)
  have 1: "fst (Bundle demoLib demoTwo (demoWorld demoScript)) =
     Some (Wrap ''bundling for environment windows/amd64 failed'' err)"
    unfolding b by (simp add: demoEnvWindows_def)
  have 2: "snd (Bundle demoLib demoTwo (demoWorld demoScript)) = w'"
    unfolding b by simp
  have n': "fs w' ''/out/linux-gtk-static-amd64/Demo'' \<noteq> None"
    using i n by simp
  show ?thesis
    unfolding 2 using 1 i n' unfolding err_def wa_def w0_def by (intro conjI)
qed

section \<open>The environment of the compiler process (claim C7)\<close>

text \<open>
  Claim C7. The command that \<open>bundle\<close> builds for the compiler carries an environment of
  its own, a list of exactly four variables: \<open>GOARCH\<close> and \<open>GOOS\<close> of the target, and
  \<open>GOPATH\<close> and \<open>PATH\<close> as the host has them; being a list that is not empty, it replaces
  the environment of the host. Running the command starts exactly one process, with that
  command, unless the Go binary could not be found, in which case no process is started.
  A build of an environment that succeeds has started exactly one process, the compiler,
  and its environment is the list of the four variables.
\<close>

theorem compiler_environment:
  "Env (buildCmd b e w) =
     [''GOARCH='' @ Arch e, ''GOOS='' @ OS e,
      ''GOPATH='' @ environ w ''GOPATH'', ''PATH='' @ environ w ''PATH'']
   \<and> execs (snd (compile b e w)) =
       (if lookPathErr (buildCmd b e w) = None then execs w @ [buildCmd b e w] else execs w)
   \<and> (fst (bundleEnv L b e w) = None \<longrightarrow>
        (\<exists>c. execs (snd (bundleEnv L b e w)) = execs w @ [c]
             \<and> lookPathErr c = None
             \<and> Env c = [''GOARCH='' @ Arch e, ''GOOS='' @ OS e,
                        ''GOPATH='' @ environ w ''GOPATH'', ''PATH='' @ environ w ''PATH'']))"
proof (intro conjI impI)
  show "Env (buildCmd b e w) =
     [''GOARCH='' @ Arch e, ''GOOS='' @ OS e,
      ''GOPATH='' @ environ w ''GOPATH'', ''PATH='' @ environ w ''PATH'']"
    by (rule buildCmd_Env)
  show "execs (snd (compile b e w)) =
       (if lookPathErr (buildCmd b e w) = None then execs w @ [buildCmd b e w] else execs w)"
    by (rule compile_execs)
next
  assume "fst (bundleEnv L b e w) = None"
  then have "bundleEnv L b e w = (None, snd (bundleEnv L b e w))" by (simp add: prod_eq_iff)
  from bundleEnv_None_execs [OF this] obtain w4 where
    w4: "environ w4 = environ w" "lookPathErr (buildCmd b e w4) = None"
      "execs (snd (bundleEnv L b e w)) = execs w @ [buildCmd b e w4]"
    by blast
  show "\<exists>c. execs (snd (bundleEnv L b e w)) = execs w @ [c]
             \<and> lookPathErr c = None
             \<and> Env c = [''GOARCH='' @ Arch e, ''GOOS='' @ OS e,
                        ''GOPATH='' @ environ w ''GOPATH'', ''PATH='' @ environ w ''PATH'']"
    using w4 buildCmd_Env [of b e w4] by (intro exI [of _ "buildCmd b e w4"]) simp
qed

theorem compiler_environment_witness:
  "fst (bundleEnv demoLib demoBundler demoEnvTags (demoWorld [])) = None
   \<and> (\<exists>c. execs (snd (bundleEnv demoLib demoBundler demoEnvTags (demoWorld []))) = [c]
          \<and> lookPathErr c = None
          \<and> Env c = [''GOARCH=amd64'', ''GOOS=linux'', ''GOPATH=/go'', ''PATH=/usr/bin''])"
proof -
  have "\<exists>c. execs (snd (bundleEnv demoLib demoBundler demoEnvTags (demoWorld [])))
              = execs (demoWorld []) @ [c]
          \<and> lookPathErr c = None
          \<and> Env c = [''GOARCH='' @ Arch demoEnvTags, ''GOOS='' @ OS demoEnvTags,
                     ''GOPATH='' @ environ (demoWorld []) ''GOPATH'',
                     ''PATH='' @ environ (demoWorld []) ''PATH'']"
    using compiler_environment [of demoBundler demoEnvTags "demoWorld []" demoLib] demo_compile(1)
    by blast
  then have "\<exists>c. execs (snd (bundleEnv demoLib demoBundler demoEnvTags (demoWorld []))) = [c]
          \<and> lookPathErr c = None
          \<and> Env c = [''GOARCH=amd64'', ''GOOS=linux'', ''GOPATH=/go'', ''PATH=/usr/bin'']"
    by (simp add: demo_compile(2) demoEnvTags_def demoWorld_def)
  then show ?thesis using demo_compile(1) by blast
qed

section \<open>Cancellation during vendor provisioning (claim C4)\<close>




end
